theory Spec2Isabelle
  imports Main "HOL-Library.List_Lexorder" "HOL-Library.Char_ord" "HOL-Library.AList"
    "HOL-Library.Multiset"
begin

section \<open>Python strings\<close>

text \<open>
  A Python \<open>str\<close> is modelled as a \<open>string\<close>: one \<open>char\<close> per code point, for text whose
  code points are below 256. Strings compare lexicographically by code point, as Python
  compares them (\<open>List_Lexorder\<close> over \<open>Char_ord\<close>).
\<close>

definition isspace :: "char \<Rightarrow> bool" where
  \<comment> \<open>\<open>str.isspace\<close> and the regex class \<open>\s\<close> on the code points below 256\<close>
  "isspace c = (of_char c \<in> {9, 10, 11, 12, 13, 28, 29, 30, 31, 32, 133, 160 :: nat})"

definition strip :: "string \<Rightarrow> string" where
  \<comment> \<open>\<open>s.strip()\<close>\<close>
  "strip s = rev (dropWhile isspace (rev (dropWhile isspace s)))"

fun split_on :: "char \<Rightarrow> string \<Rightarrow> string list" where
  \<comment> \<open>\<open>s.split(c)\<close> for a one-character separator: always at least one part\<close>
  "split_on c [] = [[]]"
| "split_on c (x # xs) =
     (let r = split_on c xs in if x = c then [] # r else (x # hd r) # tl r)"

fun split_max :: "char \<Rightarrow> nat \<Rightarrow> string \<Rightarrow> string list" where
  \<comment> \<open>\<open>s.split(c, n)\<close>: at most \<open>n\<close> splits, the rest of the string is the last part\<close>
  "split_max c 0 s = [s]"
| "split_max c (Suc n) s =
     (case dropWhile (\<lambda>x. x \<noteq> c) s of
        [] \<Rightarrow> [s]
      | _ # rest \<Rightarrow> takeWhile (\<lambda>x. x \<noteq> c) s # split_max c n rest)"

definition startswith :: "string \<Rightarrow> string \<Rightarrow> bool" where
  \<comment> \<open>\<open>s.startswith(p)\<close>\<close>
  "startswith p s = (take (length p) s = p)"

fun join :: "string \<Rightarrow> string list \<Rightarrow> string" where
  \<comment> \<open>\<open>sep.join(parts)\<close>\<close>
  "join sep [] = []"
| "join sep [x] = x"
| "join sep (x # y # ys) = x @ sep @ join sep (y # ys)"

definition sorted_py :: "('a \<Rightarrow> 'k::linorder) \<Rightarrow> bool \<Rightarrow> 'a list \<Rightarrow> 'a list" where
  \<comment> \<open>\<open>sorted(xs, key=key, reverse=reverse)\<close>: a stable sort; with \<open>reverse\<close> the keys
      descend and records with equal keys keep their original order\<close>
  "sorted_py key reverse xs =
     (if reverse then rev (sort_key key (rev xs)) else sort_key key xs)"

section \<open>Data model\<close>

text \<open>The dictionaries that \<open>gather_links.py\<close> writes, with their keys as fields.\<close>

record commit =
  hash :: string
  date :: string
  message :: string
  urls :: "string list"

record link_entry =
  "file" :: string
  commits :: "commit list"
  all_urls :: "string list"

record tool =
  slug :: string
  title :: string
  description :: string
  url :: string
  created :: string
  updated :: string

text \<open>
  \<open>gathered_links\<close> is a Python dict: keys keep their insertion order, and storing under
  a key that is already there replaces the value in place (\<open>AList.update\<close>).
\<close>

type_synonym gathered = "(string \<times> link_entry) list"

datatype py_exception = CalledProcessError | FileNotFoundError | UnicodeDecodeError

text \<open>
  A file on disk as \<open>exists()\<close> and \<open>read_text("utf-8")\<close> see it: missing, present but
  unreadable (the read raises), or text.
\<close>

datatype file_state = Missing | Unreadable | Text string

section \<open>History harvester: \<open>get_file_commit_details\<close>\<close>

definition url_char :: "char \<Rightarrow> bool" where
  \<comment> \<open>the class \<open>[^\s<>"]\<close>\<close>
  "url_char c = (\<not> isspace c \<and> c \<noteq> CHR ''<'' \<and> c \<noteq> CHR ''>'' \<and> c \<noteq> CHR 0x22)"

definition match_url :: "string \<Rightarrow> string option" where
  \<comment> \<open>the match of \<open>https?://[^\s<>"]+\<close> at the start of \<open>s\<close>, if there is one: the
      class is greedy and nothing follows it, so it takes the whole run\<close>
  "match_url s =
     (if startswith ''https://'' s \<and> takeWhile url_char (drop 8 s) \<noteq> []
        then Some (''https://'' @ takeWhile url_char (drop 8 s))
      else if startswith ''http://'' s \<and> takeWhile url_char (drop 7 s) \<noteq> []
        then Some (''http://'' @ takeWhile url_char (drop 7 s))
      else None)"

fun scan_urls :: "nat \<Rightarrow> string \<Rightarrow> string list" where
  \<comment> \<open>the left-to-right scan of \<open>re.findall\<close>: \<open>skip\<close> characters still belong to the
      last match; matches do not overlap\<close>
  "scan_urls skip [] = []"
| "scan_urls skip (c # cs) =
     (if 0 < skip then scan_urls (skip - 1) cs
      else case match_url (c # cs) of
             Some u \<Rightarrow> u # scan_urls (length u - 1) cs
           | None \<Rightarrow> scan_urls 0 cs)"

definition findall_urls :: "string \<Rightarrow> string list" where
  "findall_urls msg = scan_urls 0 msg"

fun parse_log_lines :: "string list \<Rightarrow> commit list" where
  \<comment> \<open>the loop over the lines of the log, appending to \<open>commits\<close>\<close>
  "parse_log_lines [] = []"
| "parse_log_lines (line # rest) =
     (if line = [] then parse_log_lines rest
      else case split_max (CHR ''|'') 2 line of
             [h, d, m] \<Rightarrow>
               \<lparr>hash = h, date = d, message = m, urls = findall_urls m\<rparr> # parse_log_lines rest
           | _ \<Rightarrow> parse_log_lines rest)"

definition get_file_commit_details :: "py_exception + string \<Rightarrow> py_exception + commit list" where
  \<comment> \<open>The argument is what \<open>subprocess.run(["git", "log", ...], check=True)\<close> does for
      the path: \<open>Inr stdout\<close>, or \<open>Inl\<close> the exception it raises. Only
      \<open>CalledProcessError\<close> is caught.\<close>
  "get_file_commit_details run =
     (case run of
        Inl CalledProcessError \<Rightarrow> Inr []
      | Inl e \<Rightarrow> Inl e
      | Inr stdout \<Rightarrow> Inr (parse_log_lines (split_on CHR ''\<newline>'' (strip stdout))))"

section \<open>Tool record builder\<close>

definition stem :: "string \<Rightarrow> string" where
  \<comment> \<open>\<open>Path(name).stem\<close>: the name up to its last dot, when that dot is neither the first
      nor the last character\<close>
  "stem name =
     (let n = length (takeWhile (\<lambda>c. c \<noteq> CHR ''.'') (rev name)) in
      if n < length name \<and> 0 < n \<and> n + 1 < length name
      then take (length name - n - 1) name else name)"

definition lower :: "char \<Rightarrow> char" where
  "lower c = (if CHR ''A'' \<le> c \<and> c \<le> CHR ''Z'' then char_of (of_char c + (32::nat)) else c)"

definition startswith_ci :: "string \<Rightarrow> string \<Rightarrow> bool" where
  \<comment> \<open>a literal of the pattern matched under \<open>re.IGNORECASE\<close>\<close>
  "startswith_ci p s = (map lower (take (length p) s) = map lower p)"

definition match_title :: "string \<Rightarrow> string option" where
  \<comment> \<open>the group of \<open><title>([^<]+)</title>\<close> matched at the start of \<open>s\<close>: the group
      is the whole run up to the next \<open><\<close>, since the closing tag starts with one\<close>
  "match_title s =
     (let run = takeWhile (\<lambda>c. c \<noteq> CHR ''<'') (drop 7 s) in
      if startswith_ci ''<title>'' s \<and> run \<noteq> [] \<and>
         startswith_ci ''</title>'' (drop (7 + length run) s)
      then Some run else None)"

fun search_title :: "string \<Rightarrow> string option" where
  \<comment> \<open>\<open>re.search\<close>: the leftmost position with a match\<close>
  "search_title [] = None"
| "search_title (c # cs) =
     (case match_title (c # cs) of Some g \<Rightarrow> Some g | None \<Rightarrow> search_title cs)"

definition extract_title :: "string \<Rightarrow> file_state \<Rightarrow> string" where
  "extract_title name f =
     (case f of
        Text content \<Rightarrow> (case search_title content of Some g \<Rightarrow> strip g | None \<Rightarrow> stem name)
      | _ \<Rightarrow> stem name)"

fun collect_paragraph :: "string list \<Rightarrow> string list \<Rightarrow> bool \<Rightarrow> string list" where
  \<comment> \<open>the loop of \<open>extract_description\<close> with its two variables; \<open>break\<close> returns\<close>
  "collect_paragraph [] paragraph in_paragraph = paragraph"
| "collect_paragraph (line # rest) paragraph in_paragraph =
     (let stripped = strip line in
      if startswith ''#'' stripped then collect_paragraph rest paragraph in_paragraph
      else if stripped \<noteq> [] then collect_paragraph rest (paragraph @ [stripped]) True
      else if in_paragraph then paragraph
      else collect_paragraph rest paragraph in_paragraph)"

definition extract_description :: "file_state \<Rightarrow> string" where
  "extract_description f =
     (case f of
        Missing \<Rightarrow> []
      | Unreadable \<Rightarrow> []
      | Text content \<Rightarrow>
          join '' '' (collect_paragraph (split_on CHR ''\<newline>'' (strip content)) [] False))"

definition EXCLUDED_FILES :: "string set" where
  "EXCLUDED_FILES = {''index.html'', ''colophon.html'', ''by-month.html''}"

text \<open>
  What a run of \<open>gather_links\<close> reads: the names that \<open>Path(".").glob("*.html")\<close> yields,
  what \<open>git log\<close> does for each path, and the files of the directory.
\<close>

record world =
  glob_html :: "string list"
  git_log :: "string \<Rightarrow> py_exception + string"
  read_text :: "string \<Rightarrow> file_state"

text \<open>The files the pipeline writes and its renderers read; \<open>None\<close> is a file that is not there.\<close>

record files =
  readme_md :: "string option"
  gathered_links_json :: "gathered option"
  tools_json :: "tool list option"
  dates_json :: "(string \<times> string) list option"
  by_month_html :: "string option"
  colophon_html :: "string option"
  index_html :: "string option"

function str_nat :: "nat \<Rightarrow> string" where
  \<comment> \<open>\<open>str(n)\<close> of a length or a count\<close>
  "str_nat n =
     (if n < 10 then [char_of (48 + n)] else str_nat (n div 10) @ [char_of (48 + n mod 10)])"
  by pat_completeness auto
termination
  by (relation "measure id") auto

declare str_nat.simps [simp del]

text \<open>
  \<open>list(set(...))\<close> lists the distinct URLs in the iteration order of a set of strings,
  which follows their hashes; Python salts string hashes per process, so the order is an
  input of each run. \<open>list_of_set\<close> stands for it: it is given the URLs in the order the
  generator yields them. Every order Python can produce is a duplicate-free enumeration
  of the same elements.
\<close>

definition set_enumeration :: "(string list \<Rightarrow> string list) \<Rightarrow> bool" where
  "set_enumeration list_of_set = (\<forall>xs. distinct (list_of_set xs) \<and> set (list_of_set xs) = set xs)"

definition tool_of :: "world \<Rightarrow> string \<Rightarrow> commit list \<Rightarrow> tool" where
  \<comment> \<open>the dictionary appended to \<open>tools\<close> for one page\<close>
  "tool_of w name cs =
     \<lparr>slug = stem name,
      title = extract_title name (read_text w name),
      description = extract_description (read_text w (stem name @ ''.docs.md'')),
      url = name,
      created = (if cs \<noteq> [] then date (last cs) else []),
      updated = (if cs \<noteq> [] then date (hd cs) else [])\<rparr>"

definition entry_of :: "(string list \<Rightarrow> string list) \<Rightarrow> string \<Rightarrow> commit list \<Rightarrow> link_entry" where
  \<comment> \<open>the dictionary stored in \<open>gathered_links[slug]\<close>\<close>
  "entry_of list_of_set name cs =
     \<lparr>file = name, commits = cs, all_urls = list_of_set (concat (map urls cs))\<rparr>"

fun gather_loop ::
  "(string list \<Rightarrow> string list) \<Rightarrow> world \<Rightarrow> string list \<Rightarrow> gathered \<Rightarrow> tool list
     \<Rightarrow> py_exception + gathered \<times> tool list" where
  \<comment> \<open>the loop over \<open>html_files\<close> with its two accumulators; an exception that
      \<open>get_file_commit_details\<close> lets through ends the run\<close>
  "gather_loop list_of_set w [] g ts = Inr (g, ts)"
| "gather_loop list_of_set w (name # rest) g ts =
     (if name \<in> EXCLUDED_FILES then gather_loop list_of_set w rest g ts
      else case get_file_commit_details (git_log w name) of
             Inl e \<Rightarrow> Inl e
           | Inr cs \<Rightarrow>
               if cs = [] then gather_loop list_of_set w rest g ts
               else gather_loop list_of_set w rest
                      (AList.update (stem name) (entry_of list_of_set name cs) g)
                      (ts @ [tool_of w name cs]))"

definition gather_links ::
  "(string list \<Rightarrow> string list) \<Rightarrow> world \<Rightarrow> files \<Rightarrow> py_exception + string \<times> files" where
  \<comment> \<open>returns what is printed and the files after the run\<close>
  "gather_links list_of_set w fs =
     (case gather_loop list_of_set w (sorted_py id False (glob_html w)) [] [] of
        Inl e \<Rightarrow> Inl e
      | Inr (g, ts) \<Rightarrow>
          Inr (''Gathered metadata for '' @ str_nat (length ts) @ '' tools'',
               fs\<lparr>gathered_links_json := Some g,
                  tools_json := Some (sorted_py created True ts)\<rparr>))"

section \<open>Dates projector: \<open>build_dates\<close>\<close>

fun dates_loop :: "gathered \<Rightarrow> (string \<times> string) list \<Rightarrow> (string \<times> string) list" where
  \<comment> \<open>the loop over \<open>gathered.items()\<close>, filling the dict \<open>dates\<close>\<close>
  "dates_loop [] dates = dates"
| "dates_loop ((s, data) # rest) dates =
     (if commits data \<noteq> []
      then dates_loop rest (AList.update (file data) (take 10 (date (hd (commits data)))) dates)
      else dates_loop rest dates)"

definition build_dates :: "files \<Rightarrow> string \<times> files" where
  \<comment> \<open>returns what is printed and the files after the run\<close>
  "build_dates fs =
     (case gathered_links_json fs of
        None \<Rightarrow> (''gathered_links.json not found - run gather_links.py first'', fs)
      | Some g \<Rightarrow>
          (let dates = dates_loop g [] in
           (''Built dates.json with '' @ str_nat (length dates) @ '' entries'',
            fs\<lparr>dates_json := Some dates\<rparr>)))"

section \<open>By-Month renderer: \<open>build_by_month\<close>\<close>

definition HTML_TEMPLATE_by_month :: "string \<Rightarrow> string \<Rightarrow> string" where
  \<comment> \<open>\<open>HTML_TEMPLATE.format(...)\<close> of \<open>build_by_month.py\<close>, the template line by line\<close>
  \<open>HTML_TEMPLATE_by_month toc content =
     concat
       [''<!DOCTYPE html>\<newline>'',
        ''<html lang="en">\<newline>'',
        ''<head>\<newline>'',
        ''    <meta charset="UTF-8">\<newline>'',
        ''    <meta name="viewport" content="width=device-width, initial-scale=1.0">\<newline>'',
        ''    <title>Tools by Month</title>\<newline>'',
        ''    <style>\<newline>'',
        ''        :root {\<newline>'',
        ''            --bg: #ffffff;\<newline>'',
        ''            --fg: #1a1a1a;\<newline>'',
        ''            --link: #0066cc;\<newline>'',
        ''            --link-visited: #551a8b;\<newline>'',
        ''            --border: #e0e0e0;\<newline>'',
        ''            --code-bg: #f5f5f5;\<newline>'',
        ''        }\<newline>'',
        ''        @media (prefers-color-scheme: dark) {\<newline>'',
        ''            :root {\<newline>'',
        ''                --bg: #1a1a1a;\<newline>'',
        ''                --fg: #e0e0e0;\<newline>'',
        ''                --link: #6db3f2;\<newline>'',
        ''                --link-visited: #b794f4;\<newline>'',
        ''                --border: #333;\<newline>'',
        ''                --code-bg: #2d2d2d;\<newline>'',
        ''            }\<newline>'',
        ''        }\<newline>'',
        ''        body {\<newline>'',
        ''            font-family: -apple-system, BlinkMacSystemFont, "Segoe UI", Roboto, sans-serif;\<newline>'',
        ''            line-height: 1.6;\<newline>'',
        ''            max-width: 800px;\<newline>'',
        ''            margin: 0 auto;\<newline>'',
        ''            padding: 2rem;\<newline>'',
        ''            background: var(--bg);\<newline>'',
        ''            color: var(--fg);\<newline>'',
        ''        }\<newline>'',
        ''        a { color: var(--link); }\<newline>'',
        ''        a:visited { color: var(--link-visited); }\<newline>'',
        ''        h1 { border-bottom: 2px solid var(--border); padding-bottom: 0.5em; }\<newline>'',
        ''        h2 {\<newline>'',
        ''            margin-top: 2em;\<newline>'',
        ''            padding-bottom: 0.3em;\<newline>'',
        ''            border-bottom: 1px solid var(--border);\<newline>'',
        ''        }\<newline>'',
        ''        .month-section {\<newline>'',
        ''            margin-bottom: 2em;\<newline>'',
        ''        }\<newline>'',
        ''        .tool-item {\<newline>'',
        ''            margin: 0.75em 0;\<newline>'',
        ''            padding: 0.5em 0;\<newline>'',
        ''        }\<newline>'',
        ''        .tool-item a {\<newline>'',
        ''            font-weight: 500;\<newline>'',
        ''        }\<newline>'',
        ''        .tool-description {\<newline>'',
        ''            color: #666;\<newline>'',
        ''            font-size: 0.9em;\<newline>'',
        ''            margin-left: 1em;\<newline>'',
        ''        }\<newline>'',
        ''        .tool-links {\<newline>'',
        ''            font-size: 0.85em;\<newline>'',
        ''            margin-left: 1em;\<newline>'',
        ''        }\<newline>'',
        ''        .nav {\<newline>'',
        ''            margin-bottom: 2em;\<newline>'',
        ''        }\<newline>'',
        ''        .nav a {\<newline>'',
        ''            margin-right: 1em;\<newline>'',
        ''        }\<newline>'',
        ''        .toc {\<newline>'',
        ''            background: var(--code-bg);\<newline>'',
        ''            padding: 1em;\<newline>'',
        ''            border-radius: 8px;\<newline>'',
        ''            margin-bottom: 2em;\<newline>'',
        ''        }\<newline>'',
        ''        .toc ul {\<newline>'',
        ''            margin: 0;\<newline>'',
        ''            padding-left: 1.5em;\<newline>'',
        ''            columns: 2;\<newline>'',
        ''        }\<newline>'',
        ''    </style>\<newline>'',
        ''</head>\<newline>'',
        ''<body>\<newline>'',
        ''    <nav class="nav">\<newline>'',
        ''        <a href="index.html">Home</a>\<newline>'',
        ''        <a href="colophon.html">Colophon</a>\<newline>'',
        ''    </nav>\<newline>'',
        ''    <h1>Tools by Month</h1>\<newline>'',
        ''    ''] @ toc @
     concat
       [''\<newline>'',
        ''    ''] @ content @
     concat
       [''\<newline>'',
        ''</body>\<newline>'',
        ''</html>\<newline>'']\<close>

definition format_month :: "(string \<Rightarrow> string option) \<Rightarrow> string \<Rightarrow> string" where
  \<comment> \<open>\<open>month_name\<close> stands for the library call
      \<open>datetime.strptime(ym, "%Y-%m").strftime("%B %Y")\<close>, \<open>None\<close> when it raises
      \<open>ValueError\<close>\<close>
  "format_month month_name ym = (case month_name ym of Some s \<Rightarrow> s | None \<Rightarrow> ym)"

definition bucket :: "(string \<times> tool list) list \<Rightarrow> string \<Rightarrow> tool list" where
  \<comment> \<open>\<open>by_month[ym]\<close> of the \<open>defaultdict(list)\<close>\<close>
  "bucket by_month ym = (case map_of by_month ym of Some ts \<Rightarrow> ts | None \<Rightarrow> [])"

fun group_by_month :: "tool list \<Rightarrow> (string \<times> tool list) list \<Rightarrow> (string \<times> tool list) list" where
  \<comment> \<open>the grouping loop; the dict keeps its keys in insertion order\<close>
  "group_by_month [] by_month = by_month"
| "group_by_month (t # rest) by_month =
     (if created t \<noteq> []
      then group_by_month rest
             (AList.update (take 7 (created t)) (bucket by_month (take 7 (created t)) @ [t]) by_month)
      else group_by_month rest by_month)"

definition sorted_months :: "(string \<times> tool list) list \<Rightarrow> string list" where
  "sorted_months by_month = sorted_py id True (map fst by_month)"

definition month_tools :: "(string \<times> tool list) list \<Rightarrow> string \<Rightarrow> tool list" where
  \<comment> \<open>the bucket after \<open>month_tools.sort(key=...)\<close>\<close>
  "month_tools by_month ym = sorted_py created False (bucket by_month ym)"

definition toc_item :: "(string \<Rightarrow> string option) \<Rightarrow> (string \<times> tool list) list \<Rightarrow> string \<Rightarrow> string" where
  \<open>toc_item month_name by_month ym =
     ''<li><a href="#month-'' @ ym @ ''">'' @ format_month month_name ym @ ''</a> ('' @
     str_nat (length (bucket by_month ym)) @ '')</li>''\<close>

definition toc_html :: "(string \<Rightarrow> string option) \<Rightarrow> (string \<times> tool list) list \<Rightarrow> string" where
  \<open>toc_html month_name by_month =
     ''<div class="toc">\<newline><strong>Jump to:</strong>\<newline><ul>\<newline>'' @
     join ''\<newline>'' (map (toc_item month_name by_month) (sorted_months by_month)) @
     ''\<newline></ul>\<newline></div>''\<close>

definition short_desc :: "string \<Rightarrow> string" where
  \<comment> \<open>\<open>description[:150] + "..." if len(description) > 150 else description\<close>\<close>
  "short_desc d = (if length d > 150 then take 150 d @ ''...'' else d)"

definition tool_item :: "tool \<Rightarrow> string" where
  \<comment> \<open>what one pass of the loop over \<open>month_tools\<close> adds to \<open>html\<close>\<close>
  \<open>tool_item t =
     ''<div class="tool-item">\<newline>'' @
     ''<a href="'' @ url t @ ''">'' @ title t @ ''</a>\<newline>'' @
     (if description t \<noteq> []
      then ''<span class="tool-description">'' @ short_desc (description t) @ ''</span>\<newline>''
      else []) @
     ''<span class="tool-links"><a href="colophon.html#'' @ slug t @ ''">history</a></span>\<newline>'' @
     ''</div>\<newline>''\<close>

definition month_section :: "(string \<Rightarrow> string option) \<Rightarrow> (string \<times> tool list) list \<Rightarrow> string \<Rightarrow> string" where
  \<open>month_section month_name by_month ym =
     ''<div class="month-section">\<newline>'' @
     ''<h2 id="month-'' @ ym @ ''">'' @ format_month month_name ym @ ''</h2>\<newline>'' @
     concat (map tool_item (month_tools by_month ym)) @
     ''</div>\<newline>''\<close>

definition build_by_month :: "(string \<Rightarrow> string option) \<Rightarrow> files \<Rightarrow> string \<times> files" where
  \<comment> \<open>returns what is printed and the files after the run\<close>
  "build_by_month month_name fs =
     (case tools_json fs of
        None \<Rightarrow> (''tools.json not found - run gather_links.py first'', fs)
      | Some tools \<Rightarrow>
          (let by_month = group_by_month tools [];
               content_parts = map (month_section month_name by_month) (sorted_months by_month);
               final_html = HTML_TEMPLATE_by_month (toc_html month_name by_month)
                              (join ''\<newline>'' content_parts)
           in (''Built by-month.html with '' @ str_nat (length (sorted_months by_month)) @ '' months'',
               fs\<lparr>by_month_html := Some final_html\<rparr>)))"

section \<open>Colophon renderer: \<open>build_colophon\<close>\<close>

definition HTML_TEMPLATE_colophon :: "string \<Rightarrow> string" where
  \<comment> \<open>\<open>HTML_TEMPLATE.format(...)\<close> of \<open>build_colophon.py\<close>, the template line by line\<close>
  \<open>HTML_TEMPLATE_colophon content =
     concat
       [''<!DOCTYPE html>\<newline>'',
        ''<html lang="en">\<newline>'',
        ''<head>\<newline>'',
        ''    <meta charset="UTF-8">\<newline>'',
        ''    <meta name="viewport" content="width=device-width, initial-scale=1.0">\<newline>'',
        ''    <title>Colophon - Development History</title>\<newline>'',
        ''    <style>\<newline>'',
        ''        :root {\<newline>'',
        ''            --bg: #ffffff;\<newline>'',
        ''            --fg: #1a1a1a;\<newline>'',
        ''            --link: #0066cc;\<newline>'',
        ''            --link-visited: #551a8b;\<newline>'',
        ''            --border: #e0e0e0;\<newline>'',
        ''            --code-bg: #f5f5f5;\<newline>'',
        ''        }\<newline>'',
        ''        @media (prefers-color-scheme: dark) {\<newline>'',
        ''            :root {\<newline>'',
        ''                --bg: #1a1a1a;\<newline>'',
        ''                --fg: #e0e0e0;\<newline>'',
        ''                --link: #6db3f2;\<newline>'',
        ''                --link-visited: #b794f4;\<newline>'',
        ''                --border: #333;\<newline>'',
        ''                --code-bg: #2d2d2d;\<newline>'',
        ''            }\<newline>'',
        ''        }\<newline>'',
        ''        body {\<newline>'',
        ''            font-family: -apple-system, BlinkMacSystemFont, "Segoe UI", Roboto, sans-serif;\<newline>'',
        ''            line-height: 1.6;\<newline>'',
        ''            max-width: 900px;\<newline>'',
        ''            margin: 0 auto;\<newline>'',
        ''            padding: 2rem;\<newline>'',
        ''            background: var(--bg);\<newline>'',
        ''            color: var(--fg);\<newline>'',
        ''        }\<newline>'',
        ''        a { color: var(--link); }\<newline>'',
        ''        a:visited { color: var(--link-visited); }\<newline>'',
        ''        h1 { border-bottom: 2px solid var(--border); padding-bottom: 0.5em; }\<newline>'',
        ''        .tool {\<newline>'',
        ''            margin: 2em 0;\<newline>'',
        ''            padding: 1em;\<newline>'',
        ''            border: 1px solid var(--border);\<newline>'',
        ''            border-radius: 8px;\<newline>'',
        ''        }\<newline>'',
        ''        .tool h2 {\<newline>'',
        ''            margin-top: 0;\<newline>'',
        ''        }\<newline>'',
        ''        .tool-meta {\<newline>'',
        ''            color: #666;\<newline>'',
        ''            font-size: 0.9em;\<newline>'',
        ''            margin-bottom: 1em;\<newline>'',
        ''        }\<newline>'',
        ''        .description {\<newline>'',
        ''            margin: 1em 0;\<newline>'',
        ''            padding: 0.5em 1em;\<newline>'',
        ''            background: var(--code-bg);\<newline>'',
        ''            border-radius: 4px;\<newline>'',
        ''        }\<newline>'',
        ''        details {\<newline>'',
        ''            margin-top: 1em;\<newline>'',
        ''        }\<newline>'',
        ''        summary {\<newline>'',
        ''            cursor: pointer;\<newline>'',
        ''            font-weight: 500;\<newline>'',
        ''        }\<newline>'',
        ''        .commit {\<newline>'',
        ''            margin: 0.5em 0;\<newline>'',
        ''            padding: 0.5em;\<newline>'',
        ''            border-left: 3px solid var(--border);\<newline>'',
        ''            font-size: 0.9em;\<newline>'',
        ''        }\<newline>'',
        ''        .commit-date {\<newline>'',
        ''            color: #666;\<newline>'',
        ''            font-family: monospace;\<newline>'',
        ''        }\<newline>'',
        ''        .commit-hash {\<newline>'',
        ''            font-family: monospace;\<newline>'',
        ''            font-size: 0.85em;\<newline>'',
        ''        }\<newline>'',
        ''        .commit-urls {\<newline>'',
        ''            margin-top: 0.25em;\<newline>'',
        ''        }\<newline>'',
        ''        .commit-urls a {\<newline>'',
        ''            font-size: 0.85em;\<newline>'',
        ''        }\<newline>'',
        ''        .nav {\<newline>'',
        ''            margin-bottom: 2em;\<newline>'',
        ''        }\<newline>'',
        ''        .nav a {\<newline>'',
        ''            margin-right: 1em;\<newline>'',
        ''        }\<newline>'',
        ''    </style>\<newline>'',
        ''</head>\<newline>'',
        ''<body>\<newline>'',
        ''    <nav class="nav">\<newline>'',
        ''        <a href="./">Home</a>\<newline>'',
        ''        <a href="by-month">By Month</a>\<newline>'',
        ''    </nav>\<newline>'',
        ''    <h1>Colophon</h1>\<newline>'',
        ''    <p>Development history of all tools, sorted by most recent activity.</p>\<newline>'',
        ''    ''] @ content @
     concat
       [''\<newline>'',
        ''</body>\<newline>'',
        ''</html>\<newline>'']\<close>

definition format_date :: "string \<Rightarrow> string" where
  "format_date iso_date = (if iso_date = [] then [] else take 10 iso_date)"

definition tools_by_slug :: "tool list \<Rightarrow> string \<Rightarrow> tool option" where
  \<comment> \<open>\<open>{t["slug"]: t for t in tools}\<close>: of two records with one slug the later one stays\<close>
  "tools_by_slug tools = map_of (rev (map (\<lambda>t. (slug t, t)) tools))"

definition recency_key :: "gathered \<Rightarrow> string \<Rightarrow> string" where
  \<comment> \<open>the sort key of \<open>sorted_slugs\<close>; \<open>s\<close> is always a key of \<open>gathered\<close> there\<close>
  "recency_key g s =
     (case map_of g s of
        Some data \<Rightarrow> if commits data \<noteq> [] then date (hd (commits data)) else []
      | None \<Rightarrow> [])"

definition sorted_slugs :: "gathered \<Rightarrow> string list" where
  "sorted_slugs g = sorted_py (recency_key g) True (map fst g)"

definition commit_html :: "commit \<Rightarrow> string" where
  \<comment> \<open>what one pass of the loop over \<open>commits\<close> adds to \<open>html\<close>\<close>
  \<open>commit_html c =
     ''<div class="commit">\<newline>'' @
     ''<span class="commit-date">'' @ format_date (date c) @ ''</span> '' @
     ''<span class="commit-hash">'' @ take 8 (hash c) @ ''</span> '' @
     message c @ ''\<newline>'' @
     (if urls c \<noteq> []
      then ''<div class="commit-urls">'' @
           concat (map (\<lambda>u. ''<a href="'' @ u @ ''" target="_blank">Transcript</a> '') (urls c)) @
           ''</div>\<newline>''
      else []) @
     ''</div>\<newline>''\<close>

definition tool_section :: "(string \<Rightarrow> tool option) \<Rightarrow> string \<Rightarrow> link_entry \<Rightarrow> string" where
  \<comment> \<open>what one pass of the loop over \<open>sorted_slugs\<close> appends to \<open>content_parts\<close>\<close>
  \<open>tool_section by_slug s data =
     (let cs = commits data;
          page_title = (case by_slug s of Some t \<Rightarrow> title t | None \<Rightarrow> s);
          descr = (case by_slug s of Some t \<Rightarrow> description t | None \<Rightarrow> [])
      in ''<div class="tool" id="'' @ s @ ''">\<newline>'' @
         ''<h2><a href="'' @ file data @ ''">'' @ page_title @ ''</a></h2>\<newline>'' @
         (if cs \<noteq> []
          then ''<div class="tool-meta">Created: '' @ format_date (date (last cs)) @
               '' | Updated: '' @ format_date (date (hd cs)) @ '' | '' @
               str_nat (length cs) @ '' commits</div>\<newline>''
          else []) @
         (if descr \<noteq> [] then ''<div class="description">'' @ descr @ ''</div>\<newline>'' else []) @
         (if cs \<noteq> []
          then ''<details>\<newline><summary>Commit history ('' @ str_nat (length cs) @
               '')</summary>\<newline>'' @
               concat (map commit_html cs) @ ''</details>\<newline>''
          else []) @
         ''</div>\<newline>'')\<close>

definition colophon_parts :: "gathered \<Rightarrow> (string \<Rightarrow> tool option) \<Rightarrow> string list" where
  \<comment> \<open>\<open>content_parts\<close>; \<open>gathered[slug]\<close> is there for every slug of \<open>sorted_slugs\<close>\<close>
  "colophon_parts g by_slug =
     concat (map (\<lambda>s. case map_of g s of Some data \<Rightarrow> [tool_section by_slug s data] | None \<Rightarrow> [])
               (sorted_slugs g))"

definition build_colophon :: "files \<Rightarrow> string \<times> files" where
  \<comment> \<open>returns what is printed and the files after the run\<close>
  "build_colophon fs =
     (case gathered_links_json fs of
        None \<Rightarrow> (''gathered_links.json not found - run gather_links.py first'', fs)
      | Some g \<Rightarrow>
          (let by_slug = (case tools_json fs of Some tools \<Rightarrow> tools_by_slug tools
                          | None \<Rightarrow> Map.empty);
               final_html = HTML_TEMPLATE_colophon (join ''\<newline>'' (colophon_parts g by_slug))
           in (''Built colophon.html with '' @ str_nat (length (sorted_slugs g)) @ '' tools'',
               fs\<lparr>colophon_html := Some final_html\<rparr>)))"

section \<open>Index renderer: \<open>build_index\<close>\<close>

definition HTML_TEMPLATE_index :: "string \<Rightarrow> string \<Rightarrow> string" where
  \<comment> \<open>\<open>HTML_TEMPLATE.format(...)\<close> of \<open>build_index.py\<close>, the template line by line\<close>
  \<open>HTML_TEMPLATE_index page_title body =
     concat
       [''<!DOCTYPE html>\<newline>'',
        ''<html lang="en">\<newline>'',
        ''<head>\<newline>'',
        ''    <meta charset="UTF-8">\<newline>'',
        ''    <meta name="viewport" content="width=device-width, initial-scale=1.0">\<newline>'',
        ''    <title>''] @ page_title @
     concat
       [''</title>\<newline>'',
        ''    <style>\<newline>'',
        ''        :root {\<newline>'',
        ''            --bg: #ffffff;\<newline>'',
        ''            --fg: #1a1a1a;\<newline>'',
        ''            --link: #0066cc;\<newline>'',
        ''            --link-visited: #551a8b;\<newline>'',
        ''            --border: #e0e0e0;\<newline>'',
        ''            --code-bg: #f5f5f5;\<newline>'',
        ''        }\<newline>'',
        ''        @media (prefers-color-scheme: dark) {\<newline>'',
        ''            :root {\<newline>'',
        ''                --bg: #1a1a1a;\<newline>'',
        ''                --fg: #e0e0e0;\<newline>'',
        ''                --link: #6db3f2;\<newline>'',
        ''                --link-visited: #b794f4;\<newline>'',
        ''                --border: #333;\<newline>'',
        ''                --code-bg: #2d2d2d;\<newline>'',
        ''            }\<newline>'',
        ''        }\<newline>'',
        ''        body {\<newline>'',
        ''            font-family: -apple-system, BlinkMacSystemFont, "Segoe UI", Roboto, sans-serif;\<newline>'',
        ''            line-height: 1.6;\<newline>'',
        ''            max-width: 800px;\<newline>'',
        ''            margin: 0 auto;\<newline>'',
        ''            padding: 2rem;\<newline>'',
        ''            background: var(--bg);\<newline>'',
        ''            color: var(--fg);\<newline>'',
        ''        }\<newline>'',
        ''        a { color: var(--link); }\<newline>'',
        ''        a:visited { color: var(--link-visited); }\<newline>'',
        ''        h1, h2, h3 { margin-top: 1.5em; }\<newline>'',
        ''        code {\<newline>'',
        ''            background: var(--code-bg);\<newline>'',
        ''            padding: 0.2em 0.4em;\<newline>'',
        ''            border-radius: 3px;\<newline>'',
        ''            font-size: 0.9em;\<newline>'',
        ''        }\<newline>'',
        ''        pre {\<newline>'',
        ''            background: var(--code-bg);\<newline>'',
        ''            padding: 1em;\<newline>'',
        ''            border-radius: 5px;\<newline>'',
        ''            overflow-x: auto;\<newline>'',
        ''        }\<newline>'',
        ''        pre code {\<newline>'',
        ''            background: none;\<newline>'',
        ''            padding: 0;\<newline>'',
        ''        }\<newline>'',
        ''        ul { padding-left: 1.5em; }\<newline>'',
        ''        .recent-section {\<newline>'',
        ''            background: var(--code-bg);\<newline>'',
        ''            padding: 1em 1.5em;\<newline>'',
        ''            border-radius: 8px;\<newline>'',
        ''            margin: 1.5em 0;\<newline>'',
        ''        }\<newline>'',
        ''        .recent-section h2 {\<newline>'',
        ''            margin-top: 0;\<newline>'',
        ''        }\<newline>'',
        ''        .recent-section ul {\<newline>'',
        ''            margin-bottom: 0;\<newline>'',
        ''        }\<newline>'',
        ''        .recent-date {\<newline>'',
        ''            color: #666;\<newline>'',
        ''            font-size: 0.85em;\<newline>'',
        ''        }\<newline>'',
        ''    </style>\<newline>'',
        ''</head>\<newline>'',
        ''<body>\<newline>''] @ body @
     concat
       [''\<newline>'',
        ''<script type="module" src="homepage-search.js" data-tool-search></script>\<newline>'',
        ''</body>\<newline>'',
        ''</html>\<newline>'']\<close>

definition RECENT_LIMIT :: nat where
  "RECENT_LIMIT = 5"

definition by_created :: "tool list \<Rightarrow> tool list" where
  \<comment> \<open>recently added\<close>
  "by_created tools = take RECENT_LIMIT (sorted_py created True tools)"

definition by_updated :: "tool list \<Rightarrow> tool list" where
  "by_updated tools = sorted_py updated True tools"

fun collect_updated :: "string set \<Rightarrow> tool list \<Rightarrow> tool list \<Rightarrow> tool list" where
  \<comment> \<open>the loop over \<open>by_updated\<close> that fills \<open>recently_updated\<close>; \<open>break\<close> returns\<close>
  "collect_updated recently_added_slugs [] acc = acc"
| "collect_updated recently_added_slugs (t # rest) acc =
     (if slug t \<notin> recently_added_slugs
      then (if length (acc @ [t]) \<ge> RECENT_LIMIT then acc @ [t]
            else collect_updated recently_added_slugs rest (acc @ [t]))
      else collect_updated recently_added_slugs rest acc)"

definition recently_updated :: "tool list \<Rightarrow> tool list" where
  "recently_updated tools =
     collect_updated (set (map slug (by_created tools))) (by_updated tools) []"

definition recent_item :: "(tool \<Rightarrow> string) \<Rightarrow> tool \<Rightarrow> string" where
  \<comment> \<open>one list item; \<open>field\<close> is \<open>created\<close> in the first list and \<open>updated\<close> in the second\<close>
  \<open>recent_item field t =
     ''<li><a href="'' @ url t @ ''">'' @ title t @ ''</a>'' @
     (if format_date (field t) \<noteq> []
      then '' <span class="recent-date">('' @ format_date (field t) @ '')</span>''
      else []) @
     ''</li>\<newline>''\<close>

definition added_html :: "tool list \<Rightarrow> string" where
  \<open>added_html ts =
     ''<h2>Recently Added</h2>\<newline><ul>\<newline>'' @ concat (map (recent_item created) ts) @
     ''</ul>\<newline>''\<close>

definition updated_html :: "tool list \<Rightarrow> string" where
  \<open>updated_html ts =
     (if ts \<noteq> []
      then ''<h2>Recently Updated</h2>\<newline><ul>\<newline>'' @ concat (map (recent_item updated) ts) @
           ''</ul>\<newline>''
      else [])\<close>

definition build_recent_section :: "tool list \<Rightarrow> string" where
  \<open>build_recent_section tools =
     (if tools = [] then []
      else ''<div class="recent-section">\<newline>'' @ added_html (by_created tools) @
           updated_html (recently_updated tools) @ ''</div>'')\<close>

fun find_str :: "string \<Rightarrow> string \<Rightarrow> nat option" where
  \<comment> \<open>\<open>s.find(p)\<close>: the first index where \<open>p\<close> occurs, \<open>None\<close> for \<open>-1\<close>\<close>
  "find_str p [] = (if p = [] then Some 0 else None)"
| "find_str p (c # cs) =
     (if startswith p (c # cs) then Some 0 else map_option Suc (find_str p cs))"

fun first_h1 :: "string list \<Rightarrow> string option" where
  \<comment> \<open>the loop over the lines of the README that looks for the title\<close>
  "first_h1 [] = None"
| "first_h1 (line # rest) =
     (if startswith ''# '' line then Some (strip (drop 2 line)) else first_h1 rest)"

definition inject_recent :: "string \<Rightarrow> string \<Rightarrow> string" where
  \<comment> \<open>the digest put between the markers, or else after the first \<open></h1>\<close>\<close>
  \<open>inject_recent body_html recent_html =
     (case (find_str ''<!-- recently starts -->'' body_html,
            find_str ''<!-- recently stops -->'' body_html) of
        (Some i, Some end_idx) \<Rightarrow>
          take (i + length ''<!-- recently starts -->'') body_html @ ''\<newline>'' @ recent_html @
          ''\<newline>'' @ drop end_idx body_html
      | _ \<Rightarrow>
          if recent_html \<noteq> []
          then (case find_str ''</h1>'' body_html of
                  Some first_heading_end \<Rightarrow>
                    take (first_heading_end + 5) body_html @ ''\<newline>'' @ recent_html @
                    drop (first_heading_end + 5) body_html
                | None \<Rightarrow> body_html)
          else body_html)\<close>

definition build_index :: "(string \<Rightarrow> string) \<Rightarrow> files \<Rightarrow> string \<times> files" where
  \<comment> \<open>\<open>md_convert\<close> stands for the Markdown library's \<open>convert\<close>; returns what is printed
      and the files after the run\<close>
  "build_index md_convert fs =
     (case readme_md fs of
        None \<Rightarrow> (''README.md not found'', fs)
      | Some md_content \<Rightarrow>
          (let page_title = (case first_h1 (split_on CHR ''\<newline>'' md_content) of
                               Some t \<Rightarrow> t | None \<Rightarrow> ''Tools'');
               recent_html = (case tools_json fs of
                                Some tools \<Rightarrow> build_recent_section tools | None \<Rightarrow> []);
               body_html = inject_recent (md_convert md_content) recent_html
           in (''Built index.html'',
               fs\<lparr>index_html := Some (HTML_TEMPLATE_index page_title body_html)\<rparr>)))"

section \<open>Notions used in the statements\<close>

definition commits_for :: "world \<Rightarrow> string \<Rightarrow> commit list" where
  \<comment> \<open>the history harvested for a page when the harvester returns\<close>
  "commits_for w name =
     (case get_file_commit_details (git_log w name) of Inr cs \<Rightarrow> cs | Inl e \<Rightarrow> [])"

definition kept :: "world \<Rightarrow> string \<Rightarrow> bool" where
  \<comment> \<open>the pages the loop of \<open>gather_links\<close> does not skip\<close>
  "kept w name = (name \<notin> EXCLUDED_FILES \<and> commits_for w name \<noteq> [])"

text \<open>
  The description as the specification words it: header lines and blank lines before the
  paragraph are passed over, the paragraph is the run of non-blank lines that follows, up
  to the first blank line, and its lines are joined with single spaces.
\<close>

definition is_header :: "string \<Rightarrow> bool" where
  "is_header line = startswith ''#'' (strip line)"

definition is_blank :: "string \<Rightarrow> bool" where
  "is_blank line = (strip line = [])"

definition spec_paragraph :: "string list \<Rightarrow> string list" where
  "spec_paragraph ls =
     takeWhile (\<lambda>l. \<not> is_blank l) (dropWhile (\<lambda>l. is_header l \<or> is_blank l) ls)"

definition spec_description :: "file_state \<Rightarrow> string" where
  "spec_description f =
     (case f of
        Text content \<Rightarrow>
          join '' '' (map strip (spec_paragraph (split_on CHR ''\<newline>'' (strip content))))
      | _ \<Rightarrow> [])"

text \<open>The digests as the specification words them: restrict the pool, order it, take the top.\<close>

definition spec_recently_added :: "tool list \<Rightarrow> tool list" where
  "spec_recently_added tools = take 5 (sorted_py created True tools)"

definition spec_recently_updated :: "tool list \<Rightarrow> tool list" where
  "spec_recently_updated tools =
     take 5 (sorted_py updated True
               (filter (\<lambda>t. slug t \<notin> slug ` set (spec_recently_added tools)) tools))"

text \<open>
  A small repository for the examples: \<open>widget.html\<close> has two changes, the newer one
  with two links in its message; \<open>index.html\<close> is a generated view; \<open>git log\<close> exits with
  an error status for \<open>ghost.html\<close>. No page has a companion document.
\<close>

definition no_files :: files where
  "no_files =
     \<lparr>readme_md = None, gathered_links_json = None, tools_json = None, dates_json = None,
      by_month_html = None, colophon_html = None, index_html = None\<rparr>"

definition widget_log :: string where
  "widget_log =
     ''b2c3|2024-03-02T09:00:00+00:00|update, see https://example.com/x and http://example.org/y\<newline>'' @
     ''a1b2|2024-01-10T09:00:00+00:00|initial\<newline>''"

definition example_world :: world where
  "example_world =
     \<lparr>glob_html = [''widget.html'', ''index.html'', ''ghost.html''],
      git_log = (\<lambda>p. if p = ''widget.html'' then Inr widget_log
                      else if p = ''ghost.html'' then Inl CalledProcessError else Inr []),
      read_text = (\<lambda>p. Missing)\<rparr>"

text \<open>The same directory on a machine where the \<open>git\<close> executable is not installed.\<close>

definition world_without_git :: world where
  "world_without_git = example_world\<lparr>git_log := (\<lambda>p. Inl FileNotFoundError)\<rparr>"

definition all_urls_written :: "(string list \<Rightarrow> string list) \<Rightarrow> world \<Rightarrow> (string \<times> string list) list" where
  \<comment> \<open>the \<open>all_urls\<close> lists of the full history file after a run from an empty directory\<close>
  "all_urls_written list_of_set w =
     (case gather_links list_of_set w no_files of
        Inr (out, fs) \<Rightarrow>
          (case gathered_links_json fs of
             Some g \<Rightarrow> map (\<lambda>e. (fst e, all_urls (snd e))) g
           | None \<Rightarrow> [])
      | Inl e \<Rightarrow> [])"

definition unordered :: "link_entry \<Rightarrow> string \<times> commit list \<times> string set" where
  \<comment> \<open>an entry of the full history file with its \<open>all_urls\<close> read as a set\<close>
  "unordered e = (file e, commits e, set (all_urls e))"

text \<open>Tool records for the examples; the last one has no dates.\<close>

definition mk_tool :: "string \<Rightarrow> string \<Rightarrow> string \<Rightarrow> tool" where
  "mk_tool s c u =
     \<lparr>slug = s, title = s, description = [], url = s @ ''.html'', created = c, updated = u\<rparr>"

definition example_tools :: "tool list" where
  "example_tools =
     [mk_tool ''a'' ''2024-01-01'' ''2024-06-01'',
      mk_tool ''b'' ''2024-02-01'' ''2024-02-01'',
      mk_tool ''c'' ''2024-03-01'' ''2024-03-05'',
      mk_tool ''d'' ''2024-03-15'' ''2024-03-15'',
      mk_tool ''e'' ''2024-04-01'' ''2024-04-02'',
      mk_tool ''f'' ''2024-05-01'' ''2024-05-01'',
      mk_tool ''g'' ''2023-12-01'' ''2024-05-20'',
      mk_tool ''h'' [] []]"

section \<open>Verification\<close>

subsection \<open>Sorting\<close>

lemma set_sorted_py: "set (sorted_py key r xs) = set xs"
  by (simp add: sorted_py_def)

lemma mset_sorted_py: "mset (sorted_py key r xs) = mset xs"
  by (simp add: sorted_py_def)

lemma length_sorted_py: "length (sorted_py key r xs) = length xs"
  by (simp add: sorted_py_def)

lemma sorted_py_ascending: "sorted (map key (sorted_py key False xs))"
  by (simp add: sorted_py_def)

lemma sorted_py_descending: "sorted_wrt (\<lambda>a b. b \<le> a) (map key (sorted_py key True xs))"
proof -
  have "sorted (map key (sort_key key (rev xs)))" by simp
  then have "sorted_wrt (\<lambda>a b. b \<le> a) (rev (map key (sort_key key (rev xs))))"
    by (simp only: sorted_wrt_rev)
  then show ?thesis by (simp add: sorted_py_def rev_map)
qed

lemma filter_sort_key: "filter P (sort_key key xs) = sort_key key (filter P xs)"
  by (rule filter_sort)

lemma filter_sorted_py: "filter P (sorted_py key r xs) = sorted_py key r (filter P xs)"
  by (simp add: sorted_py_def filter_sort flip: rev_filter)

subsection \<open>The loop of \<open>gather_links\<close>\<close>

lemma gather_loop_tools:
  "gather_loop los w names g ts = Inr (g', ts') \<Longrightarrow>
   ts' = ts @ map (\<lambda>n. tool_of w n (commits_for w n)) (filter (kept w) names)"
proof (induction names arbitrary: g ts)
  case Nil
  then show ?case by simp
next
  case (Cons name rest)
  show ?case
  proof (cases "name \<in> EXCLUDED_FILES")
    case True
    with Cons.prems have "gather_loop los w rest g ts = Inr (g', ts')" by simp
    from Cons.IH[OF this] True show ?thesis by (simp add: kept_def)
  next
    case False
    show ?thesis
    proof (cases "get_file_commit_details (git_log w name)")
      case (Inl e)
      with False Cons.prems show ?thesis by simp
    next
      case (Inr cs)
      show ?thesis
      proof (cases "cs = []")
        case True
        with Inr False Cons.prems
        have "gather_loop los w rest g ts = Inr (g', ts')" by simp
        from Cons.IH[OF this] True Inr show ?thesis
          by (simp add: kept_def commits_for_def)
      next
        case nonempty: False
        with Inr False Cons.prems
        have "gather_loop los w rest (AList.update (stem name) (entry_of los name cs) g)
                (ts @ [tool_of w name cs]) = Inr (g', ts')" by simp
        from Cons.IH[OF this] nonempty Inr False show ?thesis
          by (simp add: kept_def commits_for_def)
      qed
    qed
  qed
qed

lemma gather_loop_gathered:
  "gather_loop los w names g ts = Inr (g', ts') \<Longrightarrow>
   g' = fold (\<lambda>n. AList.update (stem n) (entry_of los n (commits_for w n)))
          (filter (kept w) names) g"
proof (induction names arbitrary: g ts)
  case Nil
  then show ?case by simp
next
  case (Cons name rest)
  show ?case
  proof (cases "name \<in> EXCLUDED_FILES")
    case True
    with Cons.prems have "gather_loop los w rest g ts = Inr (g', ts')" by simp
    from Cons.IH[OF this] True show ?thesis by (simp add: kept_def)
  next
    case False
    show ?thesis
    proof (cases "get_file_commit_details (git_log w name)")
      case (Inl e)
      with False Cons.prems show ?thesis by simp
    next
      case (Inr cs)
      show ?thesis
      proof (cases "cs = []")
        case True
        with Inr False Cons.prems
        have "gather_loop los w rest g ts = Inr (g', ts')" by simp
        from Cons.IH[OF this] True Inr show ?thesis
          by (simp add: kept_def commits_for_def)
      next
        case nonempty: False
        with Inr False Cons.prems
        have "gather_loop los w rest (AList.update (stem name) (entry_of los name cs) g)
                (ts @ [tool_of w name cs]) = Inr (g', ts')" by simp
        from Cons.IH[OF this] nonempty Inr False show ?thesis
          by (simp add: kept_def commits_for_def)
      qed
    qed
  qed
qed

text \<open>The run ends with an exception exactly when the harvester raises for a page it is asked about.\<close>

lemma gather_loop_returns:
  "(\<exists>r. gather_loop los w names g ts = Inr r) \<longleftrightarrow>
   (\<forall>n \<in> set names. n \<notin> EXCLUDED_FILES \<longrightarrow> (\<exists>cs. get_file_commit_details (git_log w n) = Inr cs))"
proof (induction names arbitrary: g ts)
  case Nil
  then show ?case by simp
next
  case (Cons name rest)
  show ?case
  proof (cases "name \<in> EXCLUDED_FILES")
    case True
    then show ?thesis using Cons.IH[of g ts] by simp
  next
    case False
    show ?thesis
    proof (cases "get_file_commit_details (git_log w name)")
      case (Inl e)
      with False show ?thesis by auto
    next
      case (Inr cs)
      show ?thesis
      proof (cases "cs = []")
        case True
        with Inr False show ?thesis using Cons.IH[of g ts] by simp
      next
        case nonempty: False
        with Inr False show ?thesis
          using Cons.IH[of "AList.update (stem name) (entry_of los name cs) g" "ts @ [tool_of w name cs]"]
          by simp
      qed
    qed
  qed
qed

lemma update_files:
  "set (map (file \<circ> snd) (AList.update k v g)) \<subseteq> insert (file v) (set (map (file \<circ> snd) g))"
  by (induction g) auto

lemma fold_update_files:
  "set (map (file \<circ> snd)
          (fold (\<lambda>n. AList.update (stem n) (entry_of los n (commits_for w n))) ns g))
     \<subseteq> set (map (file \<circ> snd) g) \<union> set ns"
proof (induction ns arbitrary: g)
  case Nil
  then show ?case by simp
next
  case (Cons n ns)
  let ?g = "AList.update (stem n) (entry_of los n (commits_for w n)) g"
  have "set (map (file \<circ> snd) ?g) \<subseteq> insert n (set (map (file \<circ> snd) g))"
    using update_files[of "stem n" "entry_of los n (commits_for w n)" g]
    by (simp add: entry_of_def)
  moreover have "set (map (file \<circ> snd)
          (fold (\<lambda>n. AList.update (stem n) (entry_of los n (commits_for w n))) ns ?g))
     \<subseteq> set (map (file \<circ> snd) ?g) \<union> set ns"
    by (rule Cons.IH)
  moreover have "set (n # ns) = insert n (set ns)" by simp
  ultimately show ?case
    unfolding fold_simps by blast
qed

lemma gather_links_Inr:
  assumes "gather_links los w fs = Inr (out, fs')"
  shows "tools_json fs' = Some (sorted_py created True
            (map (\<lambda>n. tool_of w n (commits_for w n))
               (filter (kept w) (sorted_py id False (glob_html w)))))"
    and "gathered_links_json fs' = Some
            (fold (\<lambda>n. AList.update (stem n) (entry_of los n (commits_for w n)))
               (filter (kept w) (sorted_py id False (glob_html w))) [])"
proof -
  obtain g ts where loop: "gather_loop los w (sorted_py id False (glob_html w)) [] [] = Inr (g, ts)"
    and fs': "fs' = fs\<lparr>gathered_links_json := Some g, tools_json := Some (sorted_py created True ts)\<rparr>"
    using assms by (auto simp: gather_links_def split: sum.splits)
  from gather_loop_tools[OF loop] fs'
  show "tools_json fs' = Some (sorted_py created True
            (map (\<lambda>n. tool_of w n (commits_for w n))
               (filter (kept w) (sorted_py id False (glob_html w)))))"
    by simp
  from gather_loop_gathered[OF loop] fs'
  show "gathered_links_json fs' = Some
            (fold (\<lambda>n. AList.update (stem n) (entry_of los n (commits_for w n)))
               (filter (kept w) (sorted_py id False (glob_html w))) [])"
    by simp
qed

text \<open>Every record and every entry written comes from a page that was kept.\<close>

lemma gather_links_tools_kept:
  assumes "gather_links los w fs = Inr (out, fs')" and "tools_json fs' = Some ts" and "t \<in> set ts"
  shows "\<exists>n \<in> set (glob_html w). kept w n \<and> t = tool_of w n (commits_for w n)"
proof -
  from gather_links_Inr(1)[OF assms(1)] assms(2,3)
  have "t \<in> set (map (\<lambda>n. tool_of w n (commits_for w n))
               (filter (kept w) (sorted_py id False (glob_html w))))"
    by (simp add: set_sorted_py)
  then show ?thesis by (auto simp: set_sorted_py)
qed

lemma gather_links_entries_kept:
  assumes "gather_links los w fs = Inr (out, fs')" and "gathered_links_json fs' = Some g"
    and "e \<in> set g"
  shows "file (snd e) \<in> set (glob_html w) \<and> kept w (file (snd e))"
proof -
  let ?ns = "filter (kept w) (sorted_py id False (glob_html w))"
  have "set (map (file \<circ> snd) g) \<subseteq> set ?ns"
    using fold_update_files[of los w ?ns "[]"] gather_links_Inr(2)[OF assms(1)] assms(2) by simp
  with assms(3) have "file (snd e) \<in> set ?ns" by auto
  then show ?thesis by (simp add: set_sorted_py)
qed

lemma gather_links_tool_present:
  assumes "gather_links los w fs = Inr (out, fs')" and "n \<in> set (glob_html w)" and "kept w n"
  shows "\<exists>ts. tools_json fs' = Some ts \<and> tool_of w n (commits_for w n) \<in> set ts"
  using gather_links_Inr(1)[OF assms(1)] assms(2,3) by (simp add: set_sorted_py)

lemma hd_last_sorted_wrt:
  assumes "sorted_wrt P xs" and "xs \<noteq> []" and "\<And>x. P x x"
  shows "P (hd xs) (last xs)"
proof (cases xs)
  case Nil
  with assms(2) show ?thesis by simp
next
  case (Cons x xs')
  show ?thesis
  proof (cases "xs' = []")
    case True
    with Cons assms(3) show ?thesis by simp
  next
    case False
    then have "last xs' \<in> set xs'" by simp
    with assms(1) Cons False show ?thesis by simp
  qed
qed

text \<open>
  Claim C4. For a page with at least one change whose harvested list is newest first (the
  dates do not increase along the list), the tool record of the page has \<open>created\<close> equal
  to the date of the last change, \<open>updated\<close> equal to the date of the first change, and
  \<open>created \<le> updated\<close>.
\<close>

theorem created_oldest_updated_newest:
  assumes "gather_links los w fs = Inr (out, fs')"
    and "name \<in> set (glob_html w)" and "name \<notin> EXCLUDED_FILES"
    and "get_file_commit_details (git_log w name) = Inr cs" and "cs \<noteq> []"
    and "sorted_wrt (\<lambda>a b. date b \<le> date a) cs"
  shows "\<exists>ts. tools_json fs' = Some ts \<and> (\<exists>t \<in> set ts. url t = name) \<and>
           (\<forall>t \<in> set ts. url t = name \<longrightarrow>
              created t = date (last cs) \<and> updated t = date (hd cs) \<and> created t \<le> updated t)"
proof -
  have cf: "commits_for w name = cs" using assms(4) by (simp add: commits_for_def)
  with assms(3,5) have k: "kept w name" by (simp add: kept_def)
  from gather_links_tool_present[OF assms(1,2) k]
  obtain ts where ts: "tools_json fs' = Some ts" and mem: "tool_of w name cs \<in> set ts"
    using cf by auto
  have le: "date (last cs) \<le> date (hd cs)"
    using hd_last_sorted_wrt[OF assms(6,5)] by simp
  have "created t = date (last cs) \<and> updated t = date (hd cs) \<and> created t \<le> updated t"
    if "t \<in> set ts" and "url t = name" for t
  proof -
    from gather_links_tools_kept[OF assms(1) ts that(1)]
    obtain n where "t = tool_of w n (commits_for w n)" by auto
    moreover from this that(2) have "n = name" by (simp add: tool_of_def)
    ultimately show ?thesis using cf assms(5) le by (simp add: tool_of_def)
  qed
  moreover have "url (tool_of w name cs) = name" by (simp add: tool_of_def)
  ultimately show ?thesis using ts mem by blast
qed

lemma example_run_returns: "\<not> isl (gather_links remdups example_world no_files)"
  by code_simp

lemma widget_commits:
  "get_file_commit_details (git_log example_world ''widget.html'') =
     Inr [\<lparr>hash = ''b2c3'', date = ''2024-03-02T09:00:00+00:00'',
           message = ''update, see https://example.com/x and http://example.org/y'',
           urls = [''https://example.com/x'', ''http://example.org/y'']\<rparr>,
          \<lparr>hash = ''a1b2'', date = ''2024-01-10T09:00:00+00:00'',
           message = ''initial'', urls = []\<rparr>]"
  by code_simp

theorem created_oldest_updated_newest_witness:
  "case gather_links remdups example_world no_files of
     Inl e \<Rightarrow> False
   | Inr (out, fs') \<Rightarrow>
       \<exists>ts. tools_json fs' = Some ts \<and> (\<exists>t \<in> set ts. url t = ''widget.html'') \<and>
         (\<forall>t \<in> set ts. url t = ''widget.html'' \<longrightarrow>
            created t = ''2024-01-10T09:00:00+00:00'' \<and> updated t = ''2024-03-02T09:00:00+00:00'' \<and>
            created t \<le> updated t)"
proof -
  obtain out fs' where run: "gather_links remdups example_world no_files = Inr (out, fs')"
    using example_run_returns by (cases "gather_links remdups example_world no_files") auto
  have a: "''widget.html'' \<in> set (glob_html example_world)" by (simp add: example_world_def)
  have b: "''widget.html'' \<notin> EXCLUDED_FILES" by (simp add: EXCLUDED_FILES_def)
  have c: "sorted_wrt (\<lambda>a b. date b \<le> date a)
     [\<lparr>hash = ''b2c3'', date = ''2024-03-02T09:00:00+00:00'',
           message = ''update, see https://example.com/x and http://example.org/y'',
           urls = [''https://example.com/x'', ''http://example.org/y'']\<rparr>,
          \<lparr>hash = ''a1b2'', date = ''2024-01-10T09:00:00+00:00'',
           message = ''initial'', urls = []\<rparr>]"
    by code_simp
  from created_oldest_updated_newest[OF run a b widget_commits _ c] run
  show ?thesis by simp
qed

text \<open>
  Claim C6. A candidate page whose harvested history has no change gets neither a tool
  record in the tool record file nor an entry in the full history map.
\<close>

theorem no_changes_no_record_no_entry:
  assumes "gather_links los w fs = Inr (out, fs')"
    and "get_file_commit_details (git_log w name) = Inr []"
  shows "\<exists>ts g. tools_json fs' = Some ts \<and> gathered_links_json fs' = Some g \<and>
           (\<forall>t \<in> set ts. url t \<noteq> name) \<and> (\<forall>e \<in> set g. file (snd e) \<noteq> name)"
proof -
  have nk: "\<not> kept w name" using assms(2) by (simp add: kept_def commits_for_def)
  obtain ts g where ts: "tools_json fs' = Some ts" and g: "gathered_links_json fs' = Some g"
    using gather_links_Inr[OF assms(1)] by blast
  have "url t \<noteq> name" if "t \<in> set ts" for t
  proof -
    from gather_links_tools_kept[OF assms(1) ts that]
    obtain n where "kept w n" and "t = tool_of w n (commits_for w n)" by auto
    with nk show ?thesis by (auto simp: tool_of_def)
  qed
  moreover have "file (snd e) \<noteq> name" if "e \<in> set g" for e
    using gather_links_entries_kept[OF assms(1) g that] nk by auto
  ultimately show ?thesis using ts g by blast
qed

theorem no_changes_no_record_no_entry_witness:
  "get_file_commit_details (git_log example_world ''ghost.html'') = Inr [] \<and>
   (case gather_links remdups example_world no_files of
      Inl e \<Rightarrow> False
    | Inr (out, fs') \<Rightarrow>
        \<exists>ts g. tools_json fs' = Some ts \<and> gathered_links_json fs' = Some g \<and>
          (\<forall>t \<in> set ts. url t \<noteq> ''ghost.html'') \<and> (\<forall>e \<in> set g. file (snd e) \<noteq> ''ghost.html''))"
proof -
  obtain out fs' where run: "gather_links remdups example_world no_files = Inr (out, fs')"
    using example_run_returns by (cases "gather_links remdups example_world no_files") auto
  have ghost: "get_file_commit_details (git_log example_world ''ghost.html'') = Inr []"
    by code_simp
  from no_changes_no_record_no_entry[OF run ghost] run ghost
  show ?thesis by simp
qed

subsection \<open>The order of \<open>all_urls\<close>\<close>

lemma set_enumeration_remdups: "set_enumeration remdups"
  by (simp add: set_enumeration_def)

lemma set_enumeration_rev_remdups: "set_enumeration (rev \<circ> remdups)"
  by (simp add: set_enumeration_def)

text \<open>
  Claim C1. Two runs on one harvested state write the same files, and in particular the
  same \<open>all_urls\<close> sequences. The code does not do this: on the example repository two
  enumerations of the same set of URLs, both possible for \<open>list(set(...))\<close>, give
  \<open>all_urls\<close> lists in different orders, so the two full history files differ.
\<close>

theorem all_urls_order_follows_set_order:
  "set_enumeration remdups \<and> set_enumeration (rev \<circ> remdups) \<and>
   all_urls_written remdups example_world =
     [(''widget'', [''https://example.com/x'', ''http://example.org/y''])] \<and>
   all_urls_written (rev \<circ> remdups) example_world =
     [(''widget'', [''http://example.org/y'', ''https://example.com/x''])] \<and>
   gather_links remdups example_world no_files \<noteq>
     gather_links (rev \<circ> remdups) example_world no_files"
proof -
  have a: "all_urls_written remdups example_world =
     [(''widget'', [''https://example.com/x'', ''http://example.org/y''])]"
    by code_simp
  have b: "all_urls_written (rev \<circ> remdups) example_world =
     [(''widget'', [''http://example.org/y'', ''https://example.com/x''])]"
    by code_simp
  have "gather_links remdups example_world no_files \<noteq>
     gather_links (rev \<circ> remdups) example_world no_files"
  proof
    assume "gather_links remdups example_world no_files =
      gather_links (rev \<circ> remdups) example_world no_files"
    then have "all_urls_written remdups example_world = all_urls_written (rev \<circ> remdups) example_world"
      by (simp add: all_urls_written_def)
    with a b show False by simp
  qed
  with a b set_enumeration_remdups set_enumeration_rev_remdups show ?thesis by blast
qed

text \<open>
  What does hold for any two enumerations: the runs end alike, print the same line and
  write the same tool records; the full history files have the same keys, files and
  commits, and each \<open>all_urls\<close> list holds the same URLs, each once.
\<close>

lemma map_update:
  "map (\<lambda>e. (fst e, f (snd e))) (AList.update k v g) =
   AList.update k (f v) (map (\<lambda>e. (fst e, f (snd e))) g)"
  by (induction g) auto

lemma fold_update_unordered:
  assumes "set_enumeration l1" and "set_enumeration l2"
    and "map (\<lambda>e. (fst e, unordered (snd e))) g1 = map (\<lambda>e. (fst e, unordered (snd e))) g2"
  shows "map (\<lambda>e. (fst e, unordered (snd e)))
           (fold (\<lambda>n. AList.update (stem n) (entry_of l1 n (commits_for w n))) ns g1) =
         map (\<lambda>e. (fst e, unordered (snd e)))
           (fold (\<lambda>n. AList.update (stem n) (entry_of l2 n (commits_for w n))) ns g2)"
  using assms(3)
proof (induction ns arbitrary: g1 g2)
  case Nil
  then show ?case by simp
next
  case (Cons n ns)
  have "unordered (entry_of l1 n (commits_for w n)) = unordered (entry_of l2 n (commits_for w n))"
    using assms(1,2) by (simp add: unordered_def entry_of_def set_enumeration_def)
  with Cons.prems
  have "map (\<lambda>e. (fst e, unordered (snd e))) (AList.update (stem n) (entry_of l1 n (commits_for w n)) g1) =
        map (\<lambda>e. (fst e, unordered (snd e))) (AList.update (stem n) (entry_of l2 n (commits_for w n)) g2)"
    by (simp only: map_update)
  from Cons.IH[OF this] show ?case by simp
qed

lemma gather_loop_raises_alike:
  "gather_loop l1 w names g1 ts1 = Inl e \<Longrightarrow> gather_loop l2 w names g2 ts2 = Inl e"
proof (induction names arbitrary: g1 ts1 g2 ts2)
  case Nil
  then show ?case by simp
next
  case (Cons name rest)
  show ?case
  proof (cases "name \<in> EXCLUDED_FILES")
    case True
    with Cons.prems have "gather_loop l1 w rest g1 ts1 = Inl e" by simp
    from Cons.IH[OF this, of g2 ts2] True show ?thesis by simp
  next
    case False
    show ?thesis
    proof (cases "get_file_commit_details (git_log w name)")
      case (Inl e')
      with False Cons.prems show ?thesis by simp
    next
      case (Inr cs)
      show ?thesis
      proof (cases "cs = []")
        case True
        with Inr False Cons.prems have "gather_loop l1 w rest g1 ts1 = Inl e" by simp
        from Cons.IH[OF this, of g2 ts2] True Inr False show ?thesis by simp
      next
        case nonempty: False
        with Inr False Cons.prems
        have "gather_loop l1 w rest (AList.update (stem name) (entry_of l1 name cs) g1)
                (ts1 @ [tool_of w name cs]) = Inl e" by simp
        from Cons.IH[OF this, of "AList.update (stem name) (entry_of l2 name cs) g2"
            "ts2 @ [tool_of w name cs]"] nonempty Inr False
        show ?thesis by simp
      qed
    qed
  qed
qed

lemma set_update_subset: "set (AList.update k v g) \<subseteq> insert (k, v) (set g)"
  by (induction g) auto

lemma fold_update_distinct:
  assumes "set_enumeration l"
  shows "(\<forall>e \<in> set g. distinct (all_urls (snd e))) \<Longrightarrow>
         (\<forall>e \<in> set (fold (\<lambda>n. AList.update (stem n) (entry_of l n (commits_for w n))) ns g).
            distinct (all_urls (snd e)))"
proof (induction ns arbitrary: g)
  case Nil
  then show ?case by simp
next
  case (Cons n ns)
  let ?g = "AList.update (stem n) (entry_of l n (commits_for w n)) g"
  have "distinct (all_urls (entry_of l n (commits_for w n)))"
    using assms by (simp add: entry_of_def set_enumeration_def)
  with Cons.prems set_update_subset[of "stem n" "entry_of l n (commits_for w n)" g]
  have "\<forall>e \<in> set ?g. distinct (all_urls (snd e))" by auto
  from Cons.IH[OF this] show ?case by simp
qed

lemma runs_agree_up_to_all_urls_order:
  assumes "set_enumeration l1" and "set_enumeration l2"
    and "gather_links l1 w fs = Inr (out1, fs1)"
  shows "\<exists>fs2 g1 g2. gather_links l2 w fs = Inr (out1, fs2) \<and>
           tools_json fs2 = tools_json fs1 \<and>
           gathered_links_json fs1 = Some g1 \<and> gathered_links_json fs2 = Some g2 \<and>
           map (\<lambda>e. (fst e, unordered (snd e))) g1 = map (\<lambda>e. (fst e, unordered (snd e))) g2 \<and>
           (\<forall>e \<in> set g1. distinct (all_urls (snd e))) \<and> (\<forall>e \<in> set g2. distinct (all_urls (snd e)))"
proof -
  let ?names = "sorted_py id False (glob_html w)"
  let ?ns = "filter (kept w) ?names"
  let ?G = "\<lambda>l. fold (\<lambda>n. AList.update (stem n) (entry_of l n (commits_for w n))) ?ns []"
  obtain g1 ts1 where loop1: "gather_loop l1 w ?names [] [] = Inr (g1, ts1)"
    and out1: "out1 = ''Gathered metadata for '' @ str_nat (length ts1) @ '' tools''"
    using assms(3) by (auto simp: gather_links_def split: sum.splits)
  have "\<exists>g2 ts2. gather_loop l2 w ?names [] [] = Inr (g2, ts2)"
  proof (cases "gather_loop l2 w ?names [] []")
    case (Inl e)
    from gather_loop_raises_alike[OF this, of l1 "[]" "[]"] loop1 show ?thesis by simp
  next
    case (Inr r)
    then show ?thesis by (cases r) simp
  qed
  then obtain g2 ts2 where loop2: "gather_loop l2 w ?names [] [] = Inr (g2, ts2)" by blast
  have ts: "ts2 = ts1" using gather_loop_tools[OF loop1] gather_loop_tools[OF loop2] by simp
  define fs2 where "fs2 = fs\<lparr>gathered_links_json := Some g2, tools_json := Some (sorted_py created True ts2)\<rparr>"
  have run2: "gather_links l2 w fs = Inr (out1, fs2)"
    using loop2 out1 ts by (simp add: gather_links_def fs2_def)
  have t: "tools_json fs2 = tools_json fs1"
    using gather_links_Inr(1)[OF assms(3)] gather_links_Inr(1)[OF run2] by simp
  have G1: "gathered_links_json fs1 = Some (?G l1)" by (rule gather_links_Inr(2)[OF assms(3)])
  have G2: "gathered_links_json fs2 = Some (?G l2)" by (rule gather_links_Inr(2)[OF run2])
  have eq: "map (\<lambda>e. (fst e, unordered (snd e))) (?G l1) = map (\<lambda>e. (fst e, unordered (snd e))) (?G l2)"
    by (rule fold_update_unordered[OF assms(1,2)]) simp
  have d1: "\<forall>e \<in> set (?G l1). distinct (all_urls (snd e))"
    by (rule fold_update_distinct[OF assms(1)]) simp
  have d2: "\<forall>e \<in> set (?G l2). distinct (all_urls (snd e))"
    by (rule fold_update_distinct[OF assms(2)]) simp
  from run2 t G1 G2 eq d1 d2 show ?thesis by blast
qed

subsection \<open>By-Month: buckets\<close>

lemma bucket_update:
  "bucket (AList.update k v bm) ym = (if ym = k then v else bucket bm ym)"
  by (simp add: bucket_def update_conv')

lemma group_by_month_bucket:
  "bucket (group_by_month ts bm) ym =
     bucket bm ym @ filter (\<lambda>t. created t \<noteq> [] \<and> take 7 (created t) = ym) ts"
proof (induction ts arbitrary: bm)
  case Nil
  then show ?case by simp
next
  case (Cons t ts)
  show ?case
  proof (cases "created t = []")
    case True
    with Cons show ?thesis by simp
  next
    case False
    with Cons[of "AList.update (take 7 (created t)) (bucket bm (take 7 (created t)) @ [t]) bm"]
    show ?thesis by (simp add: bucket_update)
  qed
qed

lemma group_by_month_keys:
  "set (map fst (group_by_month ts bm)) =
     set (map fst bm) \<union> {take 7 (created t) | t. t \<in> set ts \<and> created t \<noteq> []}"
proof (induction ts arbitrary: bm)
  case Nil
  then show ?case by simp
next
  case (Cons t ts)
  show ?case
  proof (cases "created t = []")
    case True
    with Cons[of bm] show ?thesis by auto
  next
    case False
    have "set (map fst (AList.update k v bm)) = insert k (set (map fst bm))" for k v
      using dom_update[of k v bm] by auto
    with False Cons[of "AList.update (take 7 (created t)) (bucket bm (take 7 (created t)) @ [t]) bm"]
    show ?thesis by auto
  qed
qed

lemma group_by_month_distinct:
  "distinct (map fst bm) \<Longrightarrow> distinct (map fst (group_by_month ts bm))"
proof (induction ts arbitrary: bm)
  case Nil
  then show ?case by simp
next
  case (Cons t ts)
  then show ?case by (simp add: distinct_update)
qed

lemma strictly_descending:
  assumes "sorted_wrt (\<lambda>a b. b \<le> a) xs" and "distinct xs"
  shows "sorted_wrt (\<lambda>a b. b < a) (xs :: 'a::linorder list)"
  using assms by (induction xs) (auto simp: less_le)

lemma sorted_months_strict:
  "distinct (map fst bm) \<Longrightarrow> sorted_wrt (\<lambda>a b. b < a) (sorted_months bm)"
proof -
  assume d: "distinct (map fst bm)"
  have "sorted_wrt (\<lambda>a b. b \<le> a) (map id (sorted_py id True (map fst bm)))"
    by (rule sorted_py_descending)
  moreover have "distinct (sorted_py id True (map fst bm))"
    using d by (simp add: sorted_py_def)
  ultimately show ?thesis
    using strictly_descending[of "sorted_py id True (map fst bm)"] by (simp add: sorted_months_def)
qed

lemma set_sorted_months: "set (sorted_months bm) = set (map fst bm)"
  by (simp add: sorted_months_def set_sorted_py)

text \<open>
  Claim C7. The buckets of the By-Month renderer, in the order it emits them
  (\<open>sorted_months\<close>, each listing \<open>month_tools\<close>): the keys strictly decrease; a record with
  a non-empty \<open>created\<close> has the bucket of its first seven characters among them; the
  bucket of a key holds exactly the records with a non-empty \<open>created\<close> that starts with
  the key, each as often as the input has it, so a record is in no other bucket and a
  record with an empty \<open>created\<close> is in none; and within a bucket \<open>created\<close> does not
  decrease.
\<close>

theorem by_month_buckets_partition:
  "sorted_wrt (\<lambda>a b. b < a) (sorted_months (group_by_month tools [])) \<and>
   (\<forall>t \<in> set tools. created t \<noteq> [] \<longrightarrow>
      take 7 (created t) \<in> set (sorted_months (group_by_month tools []))) \<and>
   (\<forall>ym \<in> set (sorted_months (group_by_month tools [])).
      month_tools (group_by_month tools []) ym \<noteq> []) \<and>
   (\<forall>ym. mset (month_tools (group_by_month tools []) ym) =
           filter_mset (\<lambda>t. created t \<noteq> [] \<and> take 7 (created t) = ym) (mset tools) \<and>
         sorted (map created (month_tools (group_by_month tools []) ym)))"
proof -
  let ?bm = "group_by_month tools []"
  have keys: "set (sorted_months ?bm) = {take 7 (created t) | t. t \<in> set tools \<and> created t \<noteq> []}"
    using group_by_month_keys[of tools "[]"] by (simp add: set_sorted_months)
  have b: "bucket ?bm ym = filter (\<lambda>t. created t \<noteq> [] \<and> take 7 (created t) = ym) tools" for ym
    using group_by_month_bucket[of tools "[]" ym] by (simp add: bucket_def)
  have 1: "sorted_wrt (\<lambda>a b. b < a) (sorted_months ?bm)"
    by (rule sorted_months_strict) (simp add: group_by_month_distinct)
  have 2: "\<forall>t \<in> set tools. created t \<noteq> [] \<longrightarrow> take 7 (created t) \<in> set (sorted_months ?bm)"
    using keys by blast
  have 3: "\<forall>ym \<in> set (sorted_months ?bm). month_tools ?bm ym \<noteq> []"
  proof
    fix ym assume "ym \<in> set (sorted_months ?bm)"
    with keys obtain t where "t \<in> set tools" "created t \<noteq> []" "take 7 (created t) = ym" by auto
    then have "t \<in> set (bucket ?bm ym)" by (simp add: b)
    then have "t \<in> set (month_tools ?bm ym)" by (simp add: month_tools_def set_sorted_py)
    then show "month_tools ?bm ym \<noteq> []" by auto
  qed
  have 4: "mset (month_tools ?bm ym) =
           filter_mset (\<lambda>t. created t \<noteq> [] \<and> take 7 (created t) = ym) (mset tools)" for ym
    by (simp add: month_tools_def mset_sorted_py b)
  have 5: "sorted (map created (month_tools ?bm ym))" for ym
    unfolding month_tools_def by (rule sorted_py_ascending)
  from 1 2 3 4 5 show ?thesis by blast
qed

theorem by_month_buckets_partition_witness:
  "sorted_months (group_by_month example_tools []) =
     [''2024-05'', ''2024-04'', ''2024-03'', ''2024-02'', ''2024-01'', ''2023-12''] \<and>
   mk_tool ''c'' ''2024-03-01'' ''2024-03-05'' \<in> set example_tools \<and>
   take 7 (created (mk_tool ''c'' ''2024-03-01'' ''2024-03-05'')) = ''2024-03'' \<and>
   ''2024-03'' \<in> set (sorted_months (group_by_month example_tools [])) \<and>
   month_tools (group_by_month example_tools []) ''2024-03'' \<noteq> [] \<and>
   map slug (month_tools (group_by_month example_tools []) ''2024-03'') = [''c'', ''d''] \<and>
   sorted (map created (month_tools (group_by_month example_tools []) ''2024-03'')) \<and>
   sorted_wrt (\<lambda>a b. b < a) (sorted_months (group_by_month example_tools []))"
proof -
  have k: "sorted_months (group_by_month example_tools []) =
     [''2024-05'', ''2024-04'', ''2024-03'', ''2024-02'', ''2024-01'', ''2023-12'']"
    by code_simp
  have m: "mk_tool ''c'' ''2024-03-01'' ''2024-03-05'' \<in> set example_tools"
    by (simp add: example_tools_def)
  have c: "created (mk_tool ''c'' ''2024-03-01'' ''2024-03-05'') \<noteq> []"
    "take 7 (created (mk_tool ''c'' ''2024-03-01'' ''2024-03-05'')) = ''2024-03''"
    by (simp_all add: mk_tool_def)
  have s: "map slug (month_tools (group_by_month example_tools []) ''2024-03'') = [''c'', ''d'']"
    by code_simp
  from by_month_buckets_partition[of example_tools] m c
  have "''2024-03'' \<in> set (sorted_months (group_by_month example_tools []))"
    and "month_tools (group_by_month example_tools []) ''2024-03'' \<noteq> []"
    and "sorted (map created (month_tools (group_by_month example_tools []) ''2024-03''))"
    and "sorted_wrt (\<lambda>a b. b < a) (sorted_months (group_by_month example_tools []))"
    by (metis (no_types, lifting))+
  with k m c s show ?thesis by blast
qed

subsection \<open>By-Month: descriptions\<close>

text \<open>
  Claim C8. A description of at most 150 characters is emitted as it is; a longer one is
  emitted as its first 150 characters followed by \<open>...\<close>. The text is emitted in the
  description element of the record's entry (an empty description has no element).
\<close>

theorem description_truncated_at_150:
  \<open>(length (description t) \<le> 150 \<longrightarrow> short_desc (description t) = description t) \<and>
   (150 < length (description t) \<longrightarrow>
      short_desc (description t) = take 150 (description t) @ ''...'') \<and>
   (description t \<noteq> [] \<longrightarrow>
      tool_item t =
        ''<div class="tool-item">\<newline>'' @
        ''<a href="'' @ url t @ ''">'' @ title t @ ''</a>\<newline>'' @
        ''<span class="tool-description">'' @ short_desc (description t) @ ''</span>\<newline>'' @
        ''<span class="tool-links"><a href="colophon.html#'' @ slug t @ ''">history</a></span>\<newline>'' @
        ''</div>\<newline>'')\<close>
  by (simp add: short_desc_def tool_item_def)

theorem description_truncated_at_150_witness:
  "150 < length (description (mk_tool ''a'' [] []\<lparr>description := replicate 151 CHR ''x''\<rparr>)) \<and>
   short_desc (description (mk_tool ''a'' [] []\<lparr>description := replicate 151 CHR ''x''\<rparr>)) =
     replicate 150 CHR ''x'' @ ''...'' \<and>
   length (description (mk_tool ''a'' [] []\<lparr>description := ''short''\<rparr>)) \<le> 150 \<and>
   short_desc (description (mk_tool ''a'' [] []\<lparr>description := ''short''\<rparr>)) = ''short''"
  using description_truncated_at_150[of "mk_tool ''a'' [] []\<lparr>description := replicate 151 CHR ''x''\<rparr>"]
    description_truncated_at_150[of "mk_tool ''a'' [] []\<lparr>description := ''short''\<rparr>"]
  by simp

subsection \<open>Index: the digests\<close>

lemma collect_updated_take:
  "length acc < RECENT_LIMIT \<Longrightarrow>
   collect_updated S ts acc = take RECENT_LIMIT (acc @ filter (\<lambda>t. slug t \<notin> S) ts)"
proof (induction ts arbitrary: acc)
  case Nil
  then show ?case by simp
next
  case (Cons t ts)
  show ?case
  proof (cases "slug t \<in> S")
    case True
    with Cons show ?thesis by simp
  next
    case False
    show ?thesis
    proof (cases "length (acc @ [t]) \<ge> RECENT_LIMIT")
      case True
      with Cons.prems have "length (acc @ [t]) = RECENT_LIMIT" by simp
      then have "take RECENT_LIMIT ((acc @ [t]) @ filter (\<lambda>t. slug t \<notin> S) ts) = acc @ [t]"
        by (simp only: append_eq_conv_conj[symmetric] take_append) simp
      with True False show ?thesis by simp
    next
      case short: False
      then have "length (acc @ [t]) < RECENT_LIMIT" by simp
      from Cons.IH[OF this] short False show ?thesis by simp
    qed
  qed
qed

lemma recently_updated_eq:
  "recently_updated tools =
     take 5 (sorted_py updated True (filter (\<lambda>t. slug t \<notin> slug ` set (by_created tools)) tools))"
proof -
  have "recently_updated tools =
     take RECENT_LIMIT (filter (\<lambda>t. slug t \<notin> slug ` set (by_created tools)) (sorted_py updated True tools))"
    using collect_updated_take[of "[]" "slug ` set (by_created tools)" "sorted_py updated True tools"]
    by (simp add: recently_updated_def by_updated_def RECENT_LIMIT_def)
  then show ?thesis by (simp add: filter_sorted_py RECENT_LIMIT_def)
qed

lemma descending_by_key:
  "sorted_wrt (\<lambda>a b. key b \<le> key a) (sorted_py key True xs)"
  using sorted_py_descending[of key xs] by (simp add: sorted_wrt_map)

lemma top_of_descending:
  assumes "sorted_wrt (\<lambda>a b. key b \<le> key a) xs"
    and "a \<in> set (take n xs)" and "t \<in> set xs" and "t \<notin> set (take n xs)"
  shows "key t \<le> key a"
proof -
  have "set xs = set (take n xs) \<union> set (drop n xs)"
    by (metis append_take_drop_id set_append)
  with assms(3,4) have t: "t \<in> set (drop n xs)" by blast
  have "sorted_wrt (\<lambda>a b. key b \<le> key a) (take n xs @ drop n xs)" using assms(1) by simp
  with assms(2) t show ?thesis by (simp only: sorted_wrt_append)
qed

lemma excluded_by_slug:
  assumes "distinct (map slug tools)" and "set A \<subseteq> set tools"
  shows "filter (\<lambda>t. slug t \<notin> slug ` set A) tools = filter (\<lambda>t. t \<notin> set A) tools"
proof (rule filter_cong[OF refl])
  fix t assume t: "t \<in> set tools"
  have inj: "inj_on slug (set tools)" using assms(1) by (simp add: distinct_map)
  show "(slug t \<notin> slug ` set A) = (t \<notin> set A)"
  proof
    assume "slug t \<notin> slug ` set A" then show "t \<notin> set A" by blast
  next
    assume n: "t \<notin> set A"
    show "slug t \<notin> slug ` set A"
    proof
      assume "slug t \<in> slug ` set A"
      then obtain a where "a \<in> set A" "slug a = slug t" by auto
      with inj t assms(2) have "a = t" by (auto dest: inj_onD)
      with \<open>a \<in> set A\<close> n show False by simp
    qed
  qed
qed

lemma by_created_subset: "set (by_created tools) \<subseteq> set tools"
  using set_take_subset[of RECENT_LIMIT "sorted_py created True tools"]
  by (simp add: by_created_def set_sorted_py)

lemma recently_updated_subset: "set (recently_updated tools) \<subseteq> set tools"
proof -
  have "set (recently_updated tools) \<subseteq>
        set (sorted_py updated True (filter (\<lambda>t. slug t \<notin> slug ` set (by_created tools)) tools))"
    unfolding recently_updated_eq by (rule set_take_subset)
  then show ?thesis by (auto simp: set_sorted_py)
qed

text \<open>
  Claim C9. The recently-added digest is the first five records of the list ordered by
  \<open>created\<close>, newest first: no record left out is newer than one taken. The
  recently-updated digest is the first five, by \<open>updated\<close> newest first, of the records
  whose slug is not in the recently-added digest, or all of them when they are fewer;
  where slugs are unique these are the records that are not in the recently-added digest.
\<close>

theorem recent_digests:
  "by_created tools = spec_recently_added tools \<and>
   length (by_created tools) = min 5 (length tools) \<and>
   sorted_wrt (\<lambda>a b. created b \<le> created a) (by_created tools) \<and>
   (\<forall>a \<in> set (by_created tools). \<forall>t \<in> set tools.
      t \<notin> set (by_created tools) \<longrightarrow> created t \<le> created a) \<and>
   recently_updated tools = spec_recently_updated tools \<and>
   length (recently_updated tools) =
     min 5 (length (filter (\<lambda>t. slug t \<notin> slug ` set (by_created tools)) tools)) \<and>
   sorted_wrt (\<lambda>a b. updated b \<le> updated a) (recently_updated tools) \<and>
   (\<forall>u \<in> set (recently_updated tools). \<forall>t \<in> set tools.
      slug t \<notin> slug ` set (by_created tools) \<longrightarrow> t \<notin> set (recently_updated tools) \<longrightarrow>
      updated t \<le> updated u) \<and>
   (distinct (map slug tools) \<longrightarrow>
      filter (\<lambda>t. slug t \<notin> slug ` set (by_created tools)) tools =
      filter (\<lambda>t. t \<notin> set (by_created tools)) tools)"
proof -
  let ?pool = "filter (\<lambda>t. slug t \<notin> slug ` set (by_created tools)) tools"
  have bc: "by_created tools = take 5 (sorted_py created True tools)"
    by (simp add: by_created_def RECENT_LIMIT_def)
  have 1: "by_created tools = spec_recently_added tools"
    by (simp add: bc spec_recently_added_def)
  have 2: "length (by_created tools) = min 5 (length tools)"
    by (simp add: bc length_sorted_py min.commute)
  have 3: "sorted_wrt (\<lambda>a b. created b \<le> created a) (by_created tools)"
    unfolding bc by (rule sorted_wrt_take[OF descending_by_key])
  have 4: "\<forall>a \<in> set (by_created tools). \<forall>t \<in> set tools.
      t \<notin> set (by_created tools) \<longrightarrow> created t \<le> created a"
    unfolding bc
    using top_of_descending[OF descending_by_key[of created tools], of _ 5]
    by (simp add: set_sorted_py)
  have 5: "recently_updated tools = spec_recently_updated tools"
    by (simp add: recently_updated_eq spec_recently_updated_def 1)
  have 6: "length (recently_updated tools) = min 5 (length ?pool)"
    by (simp add: recently_updated_eq length_sorted_py min.commute)
  have 7: "sorted_wrt (\<lambda>a b. updated b \<le> updated a) (recently_updated tools)"
    unfolding recently_updated_eq by (rule sorted_wrt_take[OF descending_by_key])
  have 8: "\<forall>u \<in> set (recently_updated tools). \<forall>t \<in> set tools.
      slug t \<notin> slug ` set (by_created tools) \<longrightarrow> t \<notin> set (recently_updated tools) \<longrightarrow>
      updated t \<le> updated u"
  proof (intro ballI impI)
    fix u t
    assume u: "u \<in> set (recently_updated tools)" and t: "t \<in> set tools"
      and p: "slug t \<notin> slug ` set (by_created tools)" and n: "t \<notin> set (recently_updated tools)"
    from t p have "t \<in> set (sorted_py updated True ?pool)" by (simp add: set_sorted_py)
    with top_of_descending[OF descending_by_key[of updated ?pool], of u 5 t] u n
    show "updated t \<le> updated u" by (simp add: recently_updated_eq)
  qed
  have 9: "distinct (map slug tools) \<longrightarrow> ?pool = filter (\<lambda>t. t \<notin> set (by_created tools)) tools"
    using excluded_by_slug[OF _ by_created_subset] by blast
  from 1 2 3 4 5 6 7 8 9 show ?thesis by blast
qed

lemma example_by_created: "map slug (by_created example_tools) = [''f'', ''e'', ''d'', ''c'', ''b'']"
  by code_simp

lemma example_recently_updated: "map slug (recently_updated example_tools) = [''a'', ''g'', ''h'']"
  by code_simp

theorem recent_digests_witness:
  "distinct (map slug example_tools) \<and>
   map slug (by_created example_tools) = [''f'', ''e'', ''d'', ''c'', ''b''] \<and>
   map slug (recently_updated example_tools) = [''a'', ''g'', ''h''] \<and>
   mk_tool ''b'' ''2024-02-01'' ''2024-02-01'' \<in> set (by_created example_tools) \<and>
   mk_tool ''a'' ''2024-01-01'' ''2024-06-01'' \<in> set example_tools \<and>
   mk_tool ''a'' ''2024-01-01'' ''2024-06-01'' \<notin> set (by_created example_tools) \<and>
   created (mk_tool ''a'' ''2024-01-01'' ''2024-06-01'') \<le> created (mk_tool ''b'' ''2024-02-01'' ''2024-02-01'') \<and>
   filter (\<lambda>t. slug t \<notin> slug ` set (by_created example_tools)) example_tools =
     filter (\<lambda>t. t \<notin> set (by_created example_tools)) example_tools"
proof -
  have d: "distinct (map slug example_tools)" by code_simp
  have b: "mk_tool ''b'' ''2024-02-01'' ''2024-02-01'' \<in> set (by_created example_tools)" by code_simp
  have a: "mk_tool ''a'' ''2024-01-01'' ''2024-06-01'' \<in> set example_tools" by code_simp
  have n: "mk_tool ''a'' ''2024-01-01'' ''2024-06-01'' \<notin> set (by_created example_tools)" by code_simp
  from recent_digests[of example_tools] d b a n
  have "created (mk_tool ''a'' ''2024-01-01'' ''2024-06-01'') \<le> created (mk_tool ''b'' ''2024-02-01'' ''2024-02-01'')"
    and "filter (\<lambda>t. slug t \<notin> slug ` set (by_created example_tools)) example_tools =
     filter (\<lambda>t. t \<notin> set (by_created example_tools)) example_tools"
    by blast+
  with d b a n example_by_created example_recently_updated show ?thesis by blast
qed

text \<open>
  Claim C10. With at most five records every record is in the recently-added digest, the
  recently-updated digest is empty, and the rendered digest has no Recently Updated
  section: after the Recently Added list it closes.
\<close>

theorem at_most_five_records:
  assumes "length tools \<le> 5"
  shows \<open>mset (by_created tools) = mset tools \<and>
         recently_updated tools = [] \<and>
         updated_html (recently_updated tools) = [] \<and>
         build_recent_section tools =
           (if tools = [] then []
            else ''<div class="recent-section">\<newline>'' @ added_html (by_created tools) @ ''</div>'')\<close>
proof -
  have bc: "by_created tools = sorted_py created True tools"
    using assms by (simp add: by_created_def RECENT_LIMIT_def length_sorted_py)
  then have m: "mset (by_created tools) = mset tools" by (simp add: mset_sorted_py)
  have "set (by_created tools) = set tools" by (simp add: bc set_sorted_py)
  then have "filter (\<lambda>t. slug t \<notin> slug ` set (by_created tools)) tools = []"
    by (simp add: filter_empty_conv)
  then have ru: "recently_updated tools = []"
    by (simp add: recently_updated_eq sorted_py_def)
  then have uh: "updated_html (recently_updated tools) = []" by (simp add: updated_html_def)
  from m ru uh show ?thesis by (simp add: build_recent_section_def)
qed

theorem at_most_five_records_witness:
  \<open>length (take 3 example_tools) \<le> 5 \<and>
   map slug (by_created (take 3 example_tools)) = [''c'', ''b'', ''a''] \<and>
   recently_updated (take 3 example_tools) = [] \<and>
   build_recent_section (take 3 example_tools) =
     ''<div class="recent-section">\<newline>'' @ added_html (by_created (take 3 example_tools)) @ ''</div>''\<close>
proof -
  have l: "length (take 3 example_tools) \<le> 5" by (simp add: example_tools_def)
  have n: "take 3 example_tools \<noteq> []" by (simp add: example_tools_def)
  have s: "map slug (by_created (take 3 example_tools)) = [''c'', ''b'', ''a'']" by code_simp
  from at_most_five_records[OF l] n l s show ?thesis by simp
qed

subsection \<open>Missing input files\<close>

text \<open>
  Claim C2. Each renderer has one input file it does not run without: \<open>tools.json\<close> for
  By-Month, \<open>gathered_links.json\<close> for Colophon and for the Dates projector, \<open>README.md\<close>
  for Index. When that file is absent the run prints a line that names it and ends with
  every file as it was, so its output document is not written.
\<close>

theorem missing_input_reported_nothing_written:
  "(tools_json fs = None \<longrightarrow>
      build_by_month month_name fs = (''tools.json not found - run gather_links.py first'', fs)) \<and>
   (gathered_links_json fs = None \<longrightarrow>
      build_colophon fs = (''gathered_links.json not found - run gather_links.py first'', fs)) \<and>
   (readme_md fs = None \<longrightarrow> build_index md_convert fs = (''README.md not found'', fs)) \<and>
   (gathered_links_json fs = None \<longrightarrow>
      build_dates fs = (''gathered_links.json not found - run gather_links.py first'', fs))"
  by (simp add: build_by_month_def build_colophon_def build_index_def build_dates_def)

theorem missing_input_reported_nothing_written_witness:
  "tools_json no_files = None \<and> gathered_links_json no_files = None \<and> readme_md no_files = None \<and>
   build_by_month (\<lambda>ym. None) no_files =
     (''tools.json not found - run gather_links.py first'', no_files) \<and>
   build_colophon no_files =
     (''gathered_links.json not found - run gather_links.py first'', no_files) \<and>
   build_index (\<lambda>md. md) no_files = (''README.md not found'', no_files) \<and>
   build_dates no_files =
     (''gathered_links.json not found - run gather_links.py first'', no_files) \<and>
   by_month_html (snd (build_by_month (\<lambda>ym. None) no_files)) = None \<and>
   colophon_html (snd (build_colophon no_files)) = None \<and>
   index_html (snd (build_index (\<lambda>md. md) no_files)) = None \<and>
   dates_json (snd (build_dates no_files)) = None"
proof -
  have n: "tools_json no_files = None" "gathered_links_json no_files = None"
    "readme_md no_files = None" "by_month_html no_files = None" "colophon_html no_files = None"
    "index_html no_files = None" "dates_json no_files = None"
    by (simp_all add: no_files_def)
  from missing_input_reported_nothing_written[of no_files "\<lambda>ym. None" "\<lambda>md. md"] n
  show ?thesis by simp
qed

text \<open>With its input file present each renderer writes its document.\<close>

lemma renderers_write_when_input_present:
  "tools_json fs = Some tools \<Longrightarrow> by_month_html (snd (build_by_month month_name fs)) \<noteq> None"
  "gathered_links_json fs = Some g \<Longrightarrow> colophon_html (snd (build_colophon fs)) \<noteq> None"
  "readme_md fs = Some md \<Longrightarrow> index_html (snd (build_index md_convert fs)) \<noteq> None"
  "gathered_links_json fs = Some g \<Longrightarrow> dates_json (snd (build_dates fs)) \<noteq> None"
  by (simp_all add: build_by_month_def build_colophon_def build_index_def build_dates_def Let_def)

text \<open>
  \<open>tools.json\<close> is not such a file for Index and Colophon: without it they run, Index
  with an empty digest and Colophon with slugs for titles.
\<close>

lemma index_runs_without_tools_json:
  "readme_md fs = Some md \<Longrightarrow> tools_json fs = None \<Longrightarrow>
   build_index md_convert fs =
     (''Built index.html'',
      fs\<lparr>index_html := Some (HTML_TEMPLATE_index
          (case first_h1 (split_on CHR ''\<newline>'' md) of Some t \<Rightarrow> t | None \<Rightarrow> ''Tools'')
          (inject_recent (md_convert md) []))\<rparr>)"
  by (simp add: build_index_def)

lemma colophon_runs_without_tools_json:
  "gathered_links_json fs = Some g \<Longrightarrow> tools_json fs = None \<Longrightarrow>
   build_colophon fs =
     (''Built colophon.html with '' @ str_nat (length (sorted_slugs g)) @ '' tools'',
      fs\<lparr>colophon_html := Some (HTML_TEMPLATE_colophon (join ''\<newline>'' (colophon_parts g Map.empty)))\<rparr>)"
  by (simp add: build_colophon_def)

subsection \<open>Failing history queries\<close>

lemma dates_loop_keys:
  "fst ` set (dates_loop g dates) \<subseteq> fst ` set dates \<union> (file \<circ> snd) ` set g"
proof (induction g arbitrary: dates)
  case Nil
  then show ?case by simp
next
  case (Cons e g)
  obtain s data where e: "e = (s, data)" by (cases e)
  show ?case
  proof (cases "commits data = []")
    case True
    with e Cons[of dates] show ?thesis by auto
  next
    case False
    let ?d = "AList.update (file data) (take 10 (date (hd (commits data)))) dates"
    have "fst ` set ?d = insert (file data) (fst ` set dates)"
      using dom_update[of "file data" _ dates] by simp
    with e False Cons[of ?d] show ?thesis by auto
  qed
qed

lemma month_tools_subset: "set (month_tools (group_by_month ts []) ym) \<subseteq> set ts"
  using group_by_month_bucket[of ts "[]" ym]
  by (auto simp: month_tools_def set_sorted_py bucket_def)

lemma tools_by_slug_mem: "tools_by_slug ts s = Some t \<Longrightarrow> t \<in> set ts"
  by (auto simp: tools_by_slug_def dest: map_of_SomeD)

text \<open>
  A page that the loop of \<open>gather_links\<close> skips is in neither file the run writes, and so
  in nothing the renderers take from them: no key of the dates file, no record of a month
  bucket or of a digest, no section of the colophon.
\<close>

lemma skipped_page_excluded:
  assumes "gather_links los w fs = Inr (out, fs')" and "\<not> kept w name"
  shows "\<exists>ts g. tools_json fs' = Some ts \<and> gathered_links_json fs' = Some g \<and>
           (\<forall>t \<in> set ts. url t \<noteq> name) \<and> (\<forall>e \<in> set g. file (snd e) \<noteq> name) \<and>
           name \<notin> fst ` set (dates_loop g []) \<and>
           (\<forall>ym. \<forall>t \<in> set (month_tools (group_by_month ts []) ym). url t \<noteq> name) \<and>
           (\<forall>t \<in> set (by_created ts) \<union> set (recently_updated ts). url t \<noteq> name) \<and>
           (\<forall>s data. map_of g s = Some data \<longrightarrow> file data \<noteq> name) \<and>
           (\<forall>s t. tools_by_slug ts s = Some t \<longrightarrow> url t \<noteq> name)"
proof -
  obtain ts g where ts: "tools_json fs' = Some ts" and g: "gathered_links_json fs' = Some g"
    using gather_links_Inr[OF assms(1)] by blast
  have 1: "url t \<noteq> name" if "t \<in> set ts" for t
  proof -
    from gather_links_tools_kept[OF assms(1) ts that]
    obtain n where "kept w n" and "t = tool_of w n (commits_for w n)" by auto
    with assms(2) show ?thesis by (auto simp: tool_of_def)
  qed
  have 2: "file (snd e) \<noteq> name" if "e \<in> set g" for e
    using gather_links_entries_kept[OF assms(1) g that] assms(2) by auto
  have 3: "name \<notin> fst ` set (dates_loop g [])"
  proof
    assume "name \<in> fst ` set (dates_loop g [])"
    with dates_loop_keys[of g "[]"] have "name \<in> (file \<circ> snd) ` set g" by auto
    then obtain e where "e \<in> set g" "file (snd e) = name" by auto
    with 2 show False by blast
  qed
  have 4: "\<forall>ym. \<forall>t \<in> set (month_tools (group_by_month ts []) ym). url t \<noteq> name"
    using month_tools_subset[of ts] 1 by blast
  have 5: "\<forall>t \<in> set (by_created ts) \<union> set (recently_updated ts). url t \<noteq> name"
    using by_created_subset[of ts] recently_updated_subset[of ts] 1 by blast
  have 6: "\<forall>s data. map_of g s = Some data \<longrightarrow> file data \<noteq> name"
    using 2 by (fastforce dest: map_of_SomeD)
  have 7: "\<forall>s t. tools_by_slug ts s = Some t \<longrightarrow> url t \<noteq> name"
    using 1 tools_by_slug_mem by blast
  from ts g 1 2 3 4 5 6 7 show ?thesis by blast
qed

text \<open>
  Claim C5, as stated: whatever way the query fails, the harvester returns an empty
  sequence and never raises. It does not: when \<open>git\<close> cannot be started the exception
  leaves the harvester and ends the whole run.
\<close>

theorem query_failure_can_raise:
  "git_log world_without_git ''widget.html'' = Inl FileNotFoundError \<and>
   get_file_commit_details (git_log world_without_git ''widget.html'') = Inl FileNotFoundError \<and>
   gather_links remdups world_without_git no_files = Inl FileNotFoundError"
  by code_simp

text \<open>
  Claim C5, amended. When the query ends with an error status (\<open>CalledProcessError\<close>, the
  one exception the harvester catches) the harvester returns the empty sequence, and in a
  run that completes the page is in neither written file nor in anything the renderers
  take from them.
\<close>

theorem error_status_gives_empty_history:
  assumes "git_log w name = Inl CalledProcessError"
  shows "get_file_commit_details (git_log w name) = Inr [] \<and>
         (gather_links los w fs = Inr (out, fs') \<longrightarrow>
            (\<exists>ts g. tools_json fs' = Some ts \<and> gathered_links_json fs' = Some g \<and>
               (\<forall>t \<in> set ts. url t \<noteq> name) \<and> (\<forall>e \<in> set g. file (snd e) \<noteq> name) \<and>
               name \<notin> fst ` set (dates_loop g []) \<and>
               (\<forall>ym. \<forall>t \<in> set (month_tools (group_by_month ts []) ym). url t \<noteq> name) \<and>
               (\<forall>t \<in> set (by_created ts) \<union> set (recently_updated ts). url t \<noteq> name) \<and>
               (\<forall>s data. map_of g s = Some data \<longrightarrow> file data \<noteq> name) \<and>
               (\<forall>s t. tools_by_slug ts s = Some t \<longrightarrow> url t \<noteq> name)))"
proof -
  have h: "get_file_commit_details (git_log w name) = Inr []"
    using assms by (simp add: get_file_commit_details_def)
  then have "\<not> kept w name" by (simp add: kept_def commits_for_def)
  with h skipped_page_excluded[of los w fs out fs' name] show ?thesis by blast
qed

theorem error_status_gives_empty_history_witness:
  "git_log example_world ''ghost.html'' = Inl CalledProcessError \<and>
   get_file_commit_details (git_log example_world ''ghost.html'') = Inr [] \<and>
   (case gather_links remdups example_world no_files of
      Inl e \<Rightarrow> False
    | Inr (out, fs') \<Rightarrow>
        \<exists>ts g. tools_json fs' = Some ts \<and> gathered_links_json fs' = Some g \<and>
          (\<forall>t \<in> set ts. url t \<noteq> ''ghost.html'') \<and> (\<forall>e \<in> set g. file (snd e) \<noteq> ''ghost.html'') \<and>
          ''ghost.html'' \<notin> fst ` set (dates_loop g []))"
proof -
  obtain out fs' where run: "gather_links remdups example_world no_files = Inr (out, fs')"
    using example_run_returns by (cases "gather_links remdups example_world no_files") auto
  have ghost: "git_log example_world ''ghost.html'' = Inl CalledProcessError"
    by (simp add: example_world_def)
  from error_status_gives_empty_history[OF ghost, of remdups no_files out fs'] run ghost
  have "get_file_commit_details (git_log example_world ''ghost.html'') = Inr []"
    and "\<exists>ts g. tools_json fs' = Some ts \<and> gathered_links_json fs' = Some g \<and>
          (\<forall>t \<in> set ts. url t \<noteq> ''ghost.html'') \<and> (\<forall>e \<in> set g. file (snd e) \<noteq> ''ghost.html'') \<and>
          ''ghost.html'' \<notin> fst ` set (dates_loop g [])"
    by blast+
  with run ghost show ?thesis by simp
qed

subsection \<open>Descriptions\<close>

lemma header_not_blank: "is_header l \<Longrightarrow> \<not> is_blank l"
  by (auto simp: is_header_def is_blank_def startswith_def)

lemma collect_paragraph_inside:
  "collect_paragraph ls acc True =
     acc @ map strip (filter (\<lambda>l. \<not> is_header l) (takeWhile (\<lambda>l. \<not> is_blank l) ls))"
proof (induction ls arbitrary: acc)
  case Nil
  then show ?case by simp
next
  case (Cons l ls)
  show ?case
  proof (cases "is_header l")
    case True
    with header_not_blank[OF True] Cons show ?thesis by (simp add: is_header_def)
  next
    case False
    with Cons show ?thesis by (cases "is_blank l") (simp_all add: is_header_def is_blank_def)
  qed
qed

lemma collect_paragraph_before:
  "collect_paragraph ls acc False =
     acc @ map strip (filter (\<lambda>l. \<not> is_header l) (spec_paragraph ls))"
proof (induction ls arbitrary: acc)
  case Nil
  then show ?case by (simp add: spec_paragraph_def)
next
  case (Cons l ls)
  show ?case
  proof (cases "is_header l")
    case True
    with Cons show ?thesis by (simp add: is_header_def spec_paragraph_def)
  next
    case False
    show ?thesis
    proof (cases "is_blank l")
      case True
      with False Cons show ?thesis by (simp add: is_header_def is_blank_def spec_paragraph_def)
    next
      case nonblank: False
      with False show ?thesis
        by (simp add: collect_paragraph_inside is_header_def is_blank_def spec_paragraph_def)
    qed
  qed
qed

text \<open>
  What the code extracts: the paragraph of the specification with every header line left
  out of it, also the header lines inside the paragraph.
\<close>

lemma extract_description_closed_form:
  "extract_description (Text content) =
     join '' '' (map strip (filter (\<lambda>l. \<not> is_header l)
                   (spec_paragraph (split_on CHR ''\<newline>'' (strip content)))))"
  by (simp add: extract_description_def collect_paragraph_before)

lemma extract_description_meets_spec:
  assumes "\<forall>l \<in> set (spec_paragraph (split_on CHR ''\<newline>'' (strip content))). \<not> is_header l"
  shows "extract_description (Text content) = spec_description (Text content)"
proof -
  have "filter (\<lambda>l. \<not> is_header l) (spec_paragraph (split_on CHR ''\<newline>'' (strip content))) =
        spec_paragraph (split_on CHR ''\<newline>'' (strip content))"
    using assms by (simp add: filter_id_conv)
  then show ?thesis by (simp add: extract_description_closed_form spec_description_def)
qed

lemma extract_description_no_text:
  "extract_description Missing = []" "extract_description Unreadable = []"
  "spec_paragraph (split_on CHR ''\<newline>'' (strip content)) = [] \<Longrightarrow>
     extract_description (Text content) = []"
  by (simp_all add: extract_description_def collect_paragraph_before)

text \<open>
  Claim C3. On a companion document with a header line inside its first paragraph the
  code leaves the header line out and joins the lines on both sides of it, where the
  claim keeps every non-blank line after the leading headers.
\<close>

theorem header_inside_paragraph_is_dropped:
  "extract_description (Text ''Intro\<newline># Heading\<newline>More\<newline>'') = ''Intro More'' \<and>
   spec_description (Text ''Intro\<newline># Heading\<newline>More\<newline>'') = ''Intro # Heading More''"
  by code_simp

end
